theory Spec2Isabelle
  imports Complex_Main
begin

section \<open>Loan cash flows and their internal rate of return\<close>

text \<open>
  A shallow embedding of \<^verbatim>\<open>loan_amort.py\<close> and \<^verbatim>\<open>irr.py\<close>.

  Conventions of the embedding.
  \<^item> A numpy \<^verbatim>\<open>float64\<close> is a \<^typ>\<open>real\<close>: rounding, infinities and NaN are outside
    the model. numpy divides by zero without raising (the result is \<^verbatim>\<open>inf\<close> or
    \<^verbatim>\<open>nan\<close>); HOL's \<open>x / 0\<close> is \<open>0\<close>, so a value computed through a zero divisor
    means nothing, and no exception is modelled for it.
  \<^item> A Python \<^verbatim>\<open>int\<close> is an \<^typ>\<open>int\<close>; a length or an index that the code only uses
    at non-negative values is a \<^typ>\<open>nat\<close>.
  \<^item> A numpy array is a list. An attribute of \<^verbatim>\<open>Amortization\<close> that starts as
    \<^verbatim>\<open>None\<close> is a list option.
  \<^item> A method of \<^verbatim>\<open>Amortization\<close> is a function from the object's state to an outcome:
    the value returned or the exception raised, paired with the state of the object
    at that moment. An exception leaves the assignments made before it in place.
\<close>

subsection \<open>Exceptions\<close>

text \<open>
  The exception classes that the code and the library calls under it raise.
  \<open>KeyError\<close> and \<open>ValueError\<close> carry their message: the message of a
  \<^verbatim>\<open>raise\<close> statement of the source is the source's text, the message of an exception
  raised inside numpy or pandas is abbreviated.
\<close>

datatype error =
    KeyError string
  | ValueError string
  | IndexError
  | TypeError

subsection \<open>Python values used as a column selector\<close>

text \<open>
  \<^verbatim>\<open>charge_off_col_num\<close> is annotated \<^verbatim>\<open>Optional[int]\<close> and
  \<^verbatim>\<open>fetch_default_rate\<close> dispatches on the run-time type of its argument, so the
  selector is a tagged value. A Python \<^verbatim>\<open>bool\<close> is an instance of \<^verbatim>\<open>int\<close> for
  \<^verbatim>\<open>isinstance\<close>, yet \<^verbatim>\<open>iloc\<close> does not take it as a position, so it is kept apart
  from the integers proper as \<open>PyBool\<close>. \<open>PyOther b\<close> is a value of any other type,
  with truth value \<open>b\<close>.
\<close>

datatype pyval = PyNone | PyBool bool | PyInt int | PyStr string | PyOther bool

fun truthy :: "pyval \<Rightarrow> bool" where
  "truthy PyNone = False"
| "truthy (PyBool b) = b"
| "truthy (PyInt n) = (n \<noteq> 0)"
| "truthy (PyStr s) = (s \<noteq> [])"
| "truthy (PyOther b) = b"

text \<open>\<^verbatim>\<open>str(n)\<close> for an integer: decimal digits, with a minus sign when negative.\<close>

fun str_nat :: "nat \<Rightarrow> string" where
  "str_nat n = (if n < 10 then [''0123456789'' ! n]
                else str_nat (n div 10) @ [''0123456789'' ! (n mod 10)])"

declare str_nat.simps [simp del]

definition str_int :: "int \<Rightarrow> string" where
  "str_int n = (if n < 0 then CHR ''-'' # str_nat (nat (- n)) else str_nat (nat n))"

text \<open>\<^verbatim>\<open>str(b)\<close> for a bool, and its value as an integer in a comparison.\<close>

definition str_bool :: "bool \<Rightarrow> string" where
  "str_bool b = (if b then ''True'' else ''False'')"

definition int_of_bool :: "bool \<Rightarrow> int" where
  "int_of_bool b = (if b then 1 else 0)"

subsection \<open>Calendar dates\<close>

text \<open>A pandas \<^verbatim>\<open>Timestamp\<close>, reduced to its calendar date.\<close>

record date =
  year :: int
  month :: nat
  day :: nat

definition is_leap_year :: "int \<Rightarrow> bool" where
  "is_leap_year y = (y mod 4 = 0 \<and> (y mod 100 \<noteq> 0 \<or> y mod 400 = 0))"

definition days_in_month :: "int \<Rightarrow> nat \<Rightarrow> nat" where
  "days_in_month y m =
     (if m = 2 then (if is_leap_year y then 29 else 28)
      else if m = 4 \<or> m = 6 \<or> m = 9 \<or> m = 11 then 30 else 31)"

definition valid_date :: "date \<Rightarrow> bool" where
  "valid_date d = (1 \<le> month d \<and> month d \<le> 12 \<and> 1 \<le> day d
                   \<and> day d \<le> days_in_month (year d) (month d))"

subsection \<open>The lookup tables\<close>

text \<open>
  \<^verbatim>\<open>input.py\<close> reads two sheets into the module-level data frames
  \<^verbatim>\<open>CHARGED_OFF\<close> and \<^verbatim>\<open>PREPAY\<close>. A data frame is the list of its columns in
  sheet order, each with its label; \<^verbatim>\<open>read_excel\<close> makes the labels distinct.
  The charge-off table is read by label (a \<open>term-grade\<close> string) or by position; a
  prepay column is read by its integer label and may hold missing cells (\<open>None\<close>),
  which \<^verbatim>\<open>dropna\<close> removes.
\<close>

record tables =
  CHARGED_OFF :: "(string \<times> real list) list"
  PREPAY :: "(int \<times> real option list) list"

definition FREQ_PERIOD_MAP :: "string \<rightharpoonup> nat" where
  "FREQ_PERIOD_MAP =
     map_of [(''D'', 365), (''M'', 12), (''3M'', 4), (''6M'', 2), (''Y'', 1)]"

subsection \<open>The loan\<close>

record loan =
  grade :: string
  issue_date :: date
  loan_term :: int
  coupon :: real
  invested :: real
  outstanding_balance :: real
  recovery_rate :: real
  premium :: real
  servicing_fee :: real
  earnout_fee :: real
  amort_freq :: string
  charge_off_lookup_key :: string
  charge_off_col_num :: pyval

text \<open>
  \<^verbatim>\<open>Loan.__init__\<close>, after \<^verbatim>\<open>str(grade)\<close> and \<^verbatim>\<open>pd.to_datetime(issue_date)\<close>: the
  lookup key is \<^verbatim>\<open>'-'.join([str(term), self.grade])\<close>.
\<close>

definition Loan ::
  "string \<Rightarrow> date \<Rightarrow> int \<Rightarrow> real \<Rightarrow> real \<Rightarrow> real \<Rightarrow> real \<Rightarrow> real \<Rightarrow> real \<Rightarrow> real
     \<Rightarrow> string \<Rightarrow> pyval \<Rightarrow> loan" where
  "Loan g d t c amt bal rr p sf ef freq col =
     \<lparr>grade = g, issue_date = d, loan_term = t, coupon = c, invested = amt,
      outstanding_balance = bal, recovery_rate = rr, premium = p, servicing_fee = sf,
      earnout_fee = ef, amort_freq = freq,
      charge_off_lookup_key = str_int t @ ''-'' @ g, charge_off_col_num = col\<rparr>"

subsection \<open>The amortization object\<close>

record amortization =
  pmt_cnt :: "int list option"
  pmt_date :: "date list option"
  scheduled_principal :: "real list option"
  scheduled_interest :: "real list option"
  scheduled_balance :: "real list option"
  prepay_speed :: "real list option"
  default_rate :: "real list option"
  recovery :: "real list option"
  servicing_cf :: "real list option"
  earout_cf :: "real list option"
  balance :: "real list option"
  principle :: "real list option"
  default_amt :: "real list option"
  prepay :: "real list option"
  interest :: "real list option"
  total_cf :: "real list option"
  default_multiplier :: real
  prepay_multiplier :: real

text \<open>\<^verbatim>\<open>Amortization()\<close>: every series is \<^verbatim>\<open>None\<close>, both multipliers are 1.\<close>

definition Amortization :: amortization where
  "Amortization =
     \<lparr>pmt_cnt = None, pmt_date = None, scheduled_principal = None,
      scheduled_interest = None, scheduled_balance = None, prepay_speed = None,
      default_rate = None, recovery = None, servicing_cf = None, earout_cf = None,
      balance = None, principle = None, default_amt = None, prepay = None,
      interest = None, total_cf = None, default_multiplier = 1, prepay_multiplier = 1\<rparr>"

type_synonym 'a outcome = "(error + 'a) \<times> amortization"

text \<open>Sequencing of two statements: the second runs only if the first did not raise.\<close>

definition then_do :: "unit outcome \<Rightarrow> (amortization \<Rightarrow> 'a outcome) \<Rightarrow> 'a outcome" where
  "then_do r f = (case r of (Inl e, s) \<Rightarrow> (Inl e, s) | (Inr u, s) \<Rightarrow> f s)"

text \<open>
  \<^verbatim>\<open>a[i]\<close> for a read at a non-negative index: \<^verbatim>\<open>TypeError\<close> when \<open>a\<close> is
  \<^verbatim>\<open>None\<close>, \<^verbatim>\<open>IndexError\<close> when \<open>i\<close> is past the end.
\<close>

definition getitem :: "'a list option \<Rightarrow> nat \<Rightarrow> error + 'a" where
  "getitem a i =
     (case a of None \<Rightarrow> Inl TypeError
      | Some xs \<Rightarrow> if i < length xs then Inr (xs ! i) else Inl IndexError)"

definition zeros :: "nat \<Rightarrow> real list" where
  "zeros n = replicate n 0"

subsection \<open>Lookup accessors\<close>

text \<open>
  \<^verbatim>\<open>fetch_prepay_speed\<close> (lines 117 to 128). \<^verbatim>\<open>np.zeros\<close> refuses a negative
  length. The slice assignment follows numpy's broadcasting: the values must be as
  many as the slots, or exactly one value, which then fills every slot.
\<close>

definition dropna :: "real option list \<Rightarrow> real list" where
  "dropna col = concat (map (\<lambda>c. case c of None \<Rightarrow> [] | Some v \<Rightarrow> [v]) col)"

text \<open>\<^verbatim>\<open>a[1:] = v\<close> on a numpy array \<open>a\<close>.\<close>

definition assign_tail :: "real list \<Rightarrow> real list \<Rightarrow> error + real list" where
  "assign_tail a v =
     (let m = length a - 1
      in if length v = m then Inr (take 1 a @ v)
         else if length v = 1 then Inr (take 1 a @ replicate m (v ! 0))
         else Inl (ValueError ''could not broadcast input array''))"

definition fetch_prepay_speed :: "tables \<Rightarrow> int \<Rightarrow> amortization \<Rightarrow> unit outcome" where
  "fetch_prepay_speed T nper s =
     (case map_of (PREPAY T) nper of
        None \<Rightarrow> (Inl (KeyError (str_int nper @ '' cannot be found in the Prepay table'')), s)
      | Some col \<Rightarrow>
          if nper + 1 < 0 then (Inl (ValueError ''negative dimensions are not allowed''), s)
          else
            (let s1 = s\<lparr>prepay_speed := Some (zeros (nat (nper + 1)))\<rparr>
             in (case assign_tail (zeros (nat (nper + 1))) (dropna col) of
                   Inl e \<Rightarrow> (Inl e, s1)
                 | Inr a \<Rightarrow> (Inr (), s1\<lparr>prepay_speed := Some a\<rparr>))))"

text \<open>
  \<^verbatim>\<open>fetch_default_rate\<close> (lines 130 to 150). \<^verbatim>\<open>iloc\<close> counts a negative position
  from the end and raises \<^verbatim>\<open>IndexError\<close> for a position before the first column.
  A bool passes \<^verbatim>\<open>isinstance(chargeoff_col, int)\<close> of line 139: it is compared as 1 or
  0 with the number of columns (line 140), and when that test lets it through,
  \<^verbatim>\<open>iloc\<close> refuses a bool as a position with \<^verbatim>\<open>ValueError\<close> (line 143; the
  message of pandas is abridged here).
\<close>

definition fetch_default_rate :: "tables \<Rightarrow> pyval \<Rightarrow> amortization \<Rightarrow> unit outcome" where
  "fetch_default_rate T chargeoff_col s =
     (case chargeoff_col of
        PyBool b \<Rightarrow>
          let n = int (length (CHARGED_OFF T)) in
          if int_of_bool b \<ge> n then
            (Inl (ValueError (str_bool b @ '' exceeds Charge Off table's column index.'')), s)
          else (Inl (ValueError ''Location based indexing can only have integer types''), s)
      | PyInt c \<Rightarrow>
          let n = int (length (CHARGED_OFF T)) in
          if c \<ge> n then
            (Inl (ValueError (str_int c @ '' exceeds Charge Off table's column index.'')), s)
          else if c < - n then (Inl IndexError, s)
          else (Inr (), s\<lparr>default_rate :=
                  Some (snd (CHARGED_OFF T ! nat (if c < 0 then n + c else c)))\<rparr>)
      | PyStr k \<Rightarrow>
          (case map_of (CHARGED_OFF T) k of
             None \<Rightarrow> (Inl (KeyError (k @ '' cannot be found in the Charge Off table'')), s)
           | Some col \<Rightarrow> (Inr (), s\<lparr>default_rate := Some col\<rparr>))
      | _ \<Rightarrow> (Inl (KeyError ''chargeoff_col argument must be either a str or an int''), s))"

subsection \<open>Scheduled amortization\<close>

text \<open>
  Modelled from the spec: \<^verbatim>\<open>ppmt\<close> and \<^verbatim>\<open>ipmt\<close> belong to the package
  \<^verbatim>\<open>numpy_financial\<close>, which is not part of the repository. The spec (4.2) describes
  them as "the contractual principal and interest components of a level-payment
  amortization of the invested amount at that periodic rate over \<open>term\<close> periods
  (standard annuity decomposition: interest component first, principal component as the
  complement)". The formulas below are that decomposition as the package computes it
  for payments at the end of a period and a future value of zero: the level payment
  \<open>pmt\<close>, the balance \<open>fv\<close> left after a number of payments, the interest on the
  balance left after \<open>per - 1\<close> payments, and the principal as the rest of the payment.
\<close>

definition pmt :: "real \<Rightarrow> nat \<Rightarrow> real \<Rightarrow> real" where
  "pmt rate nper pv =
     (let temp = (1 + rate) ^ nper;
          fact = (if rate = 0 then real nper else (temp - 1) / rate)
      in - (pv * temp) / fact)"

definition fv :: "real \<Rightarrow> nat \<Rightarrow> real \<Rightarrow> real \<Rightarrow> real" where
  "fv rate nper p pv =
     (if rate = 0 then - (pv + p * real nper)
      else (let temp = (1 + rate) ^ nper in - pv * temp - p / rate * (temp - 1)))"

definition ipmt :: "real \<Rightarrow> nat \<Rightarrow> nat \<Rightarrow> real \<Rightarrow> real" where
  "ipmt rate per nper pv = fv rate (per - 1) (pmt rate nper pv) pv * rate"

definition ppmt :: "real \<Rightarrow> nat \<Rightarrow> nat \<Rightarrow> real \<Rightarrow> real" where
  "ppmt rate per nper pv = pmt rate nper pv - ipmt rate per nper pv"

text \<open>
  The loop of lines 169 and 170:
  \<^verbatim>\<open>scheduled_balance[i] = scheduled_balance[i - 1] - scheduled_principal[i]\<close>.
\<close>

fun balance_loop :: "real list \<Rightarrow> nat list \<Rightarrow> real list \<Rightarrow> real list" where
  "balance_loop sp [] sb = sb"
| "balance_loop sp (i # is) sb = balance_loop sp is (sb[i := sb ! (i - 1) - sp ! i])"

text \<open>
  \<^verbatim>\<open>calc_scheduled_cashflow\<close> (lines 152 to 170). An unknown frequency code is a
  \<^verbatim>\<open>KeyError\<close> of the dictionary; \<^verbatim>\<open>np.arange(0, n)\<close> is empty for \<open>n \<le> 0\<close>;
  \<^verbatim>\<open>np.zeros\<close> refuses a negative length; with \<open>term = -1\<close> the arrays are empty and the
  store into \<^verbatim>\<open>scheduled_balance[0]\<close> is out of range. The slices \<^verbatim>\<open>[1:]\<close> receive as
  many values as they have slots.
\<close>

definition calc_scheduled_cashflow :: "loan \<Rightarrow> amortization \<Rightarrow> unit outcome" where
  "calc_scheduled_cashflow l s =
     (case FREQ_PERIOD_MAP (amort_freq l) of
        None \<Rightarrow> (Inl (KeyError (amort_freq l)), s)
      | Some ppy \<Rightarrow>
          (let rate = coupon l / real ppy;
               nper = loan_term l;
               pv = - invested l;
               nper_1 = nper + 1;
               s1 = s\<lparr>pmt_cnt := Some (map int [0..<nat nper_1])\<rparr>
           in if nper_1 < 0 then (Inl (ValueError ''negative dimensions are not allowed''), s1)
              else
                (let n = nat nper_1;
                     sp = take 1 (zeros n) @ map (\<lambda>per. ppmt rate per (nat nper) pv) [1..<n];
                     si = take 1 (zeros n) @ map (\<lambda>per. ipmt rate per (nat nper) pv) [1..<n];
                     s2 = s1\<lparr>scheduled_principal := Some sp, scheduled_interest := Some si,
                             scheduled_balance := Some (zeros n)\<rparr>
                 in if n = 0 then (Inl IndexError, s2)
                    else (Inr (), s2\<lparr>scheduled_balance :=
                            Some (balance_loop sp [1..<n] ((zeros n)[0 := invested l]))\<rparr>))))"

subsection \<open>The adjustment for default and prepayment\<close>

text \<open>
  The five arrays that lines 187 to 191 allocate and the loop fills in place. The
  object holds them from their allocation on, so that an exception inside the loop
  leaves them partly filled.
\<close>

record series =
  bal :: "real list"
  dflt :: "real list"
  pre :: "real list"
  prin :: "real list"
  intr :: "real list"

definition put_series :: "series \<Rightarrow> amortization \<Rightarrow> amortization" where
  "put_series w s =
     s\<lparr>balance := Some (bal w), default_amt := Some (dflt w), prepay := Some (pre w),
       principle := Some (prin w), interest := Some (intr w)\<rparr>"

text \<open>
  One pass of the loop body (lines 198 to 204) at period \<open>i\<close>, with \<open>1 \<le> i\<close> and \<open>i\<close>
  below the length of the five arrays. The reads of the series that the object was
  given (\<open>default_rate\<close>, the scheduled series, \<open>prepay_speed\<close>) can fail and are made in
  the order of evaluation of the source; the reads repeated in line 201 succeed
  because line 199 made them already.
\<close>

definition adjust_period :: "amortization \<Rightarrow> real \<Rightarrow> nat \<Rightarrow> series \<Rightarrow> error option \<times> series" where
  "adjust_period s rate i w =
     (let b = bal w ! (i - 1) in
      case getitem (default_rate s) (i - 1) of
        Inl e \<Rightarrow> (Some e, w)
      | Inr dr \<Rightarrow>
          (let w1 = w\<lparr>dflt := (dflt w)[i := b * dr * default_multiplier s]\<rparr> in
           case getitem (scheduled_interest s) i of
             Inl e \<Rightarrow> (Some e, w1)
           | Inr si \<Rightarrow>
               (case getitem (scheduled_balance s) (i - 1) of
                  Inl e \<Rightarrow> (Some e, w1)
                | Inr sb \<Rightarrow>
                    (case getitem (scheduled_principal s) i of
                       Inl e \<Rightarrow> (Some e, w1)
                     | Inr sp \<Rightarrow>
                         (case getitem (prepay_speed s) i of
                            Inl e \<Rightarrow> (Some e, w1)
                          | Inr ps \<Rightarrow>
                              (let w2 = w1\<lparr>pre := (pre w1)[i :=
                                          (b - (b - si) / sb * sp) * ps * prepay_multiplier s]\<rparr>;
                                   w3 = w2\<lparr>prin := (prin w2)[i :=
                                          (b - dflt w2 ! i) * sp / sb + pre w2 ! i]\<rparr>;
                                   w4 = w3\<lparr>bal := (bal w3)[i := b - prin w3 ! i - dflt w3 ! i]\<rparr>;
                                   w5 = w4\<lparr>intr := (intr w4)[i := (b - dflt w4 ! i) * rate]\<rparr>
                               in (None, w5)))))))"

text \<open>\<^verbatim>\<open>for i in range(1, nper)\<close>: the periods in increasing order, until one raises.\<close>

fun adjust_loop :: "amortization \<Rightarrow> real \<Rightarrow> nat list \<Rightarrow> series \<Rightarrow> error option \<times> series" where
  "adjust_loop s rate [] w = (None, w)"
| "adjust_loop s rate (i # is) w =
     (case adjust_period s rate i w of
        (Some e, w') \<Rightarrow> (Some e, w')
      | (None, w') \<Rightarrow> adjust_loop s rate is w')"

text \<open>
  Lines 206 to 213: recovery, servicing, earnout and total cash flow. The chained
  assignment of line 211 stores at index 12 first and at index 18 second; each store
  raises \<^verbatim>\<open>IndexError\<close> on an array that is too short.
\<close>

definition cashflow_totals :: "loan \<Rightarrow> nat \<Rightarrow> nat \<Rightarrow> series \<Rightarrow> amortization \<Rightarrow> unit outcome" where
  "cashflow_totals l nper nper_per_year w s =
     (let rc = map (\<lambda>d. d * recovery_rate l) (dflt w);
          sv = take 1 (zeros nper) @
                 map (\<lambda>i. (bal w ! i - dflt w ! (i + 1)) * servicing_fee l / real nper_per_year)
                   [0..<nper - 1];
          s1 = s\<lparr>recovery := Some rc, servicing_cf := Some sv, earout_cf := Some (zeros nper)\<rparr>;
          fee = earnout_fee l / 2 * invested l
      in if nper \<le> 12 then (Inl IndexError, s1)
         else if nper \<le> 18 then (Inl IndexError, s1\<lparr>earout_cf := Some ((zeros nper)[12 := fee])\<rparr>)
         else
           (let eo = (zeros nper)[12 := fee, 18 := fee];
                tot = map (\<lambda>i. prin w ! i + intr w ! i + rc ! i - sv ! i - eo ! i) [0..<nper]
            in (Inr (), s1\<lparr>earout_cf := Some eo,
                           total_cf := Some (tot[0 := - invested l * (1 + premium l)])\<rparr>)))"

text \<open>
  \<^verbatim>\<open>calc_default_prepay_adjust_cashflow\<close> (lines 172 to 213). Line 184 raises a
  string, which Python answers with \<^verbatim>\<open>TypeError\<close>. In line 195 the right-hand side is
  read before the store.
\<close>

definition calc_default_prepay_adjust_cashflow :: "loan \<Rightarrow> amortization \<Rightarrow> unit outcome" where
  "calc_default_prepay_adjust_cashflow l s =
     (case pmt_cnt s of
        None \<Rightarrow> (Inl TypeError, s)
      | Some cnt \<Rightarrow>
          (let nper = length cnt;
               w0 = \<lparr>bal = zeros nper, dflt = zeros nper, pre = zeros nper,
                     prin = zeros nper, intr = zeros nper\<rparr>;
               s1 = put_series w0 s
           in case FREQ_PERIOD_MAP (amort_freq l) of
                None \<Rightarrow> (Inl (KeyError (amort_freq l)), s1)
              | Some nper_per_year \<Rightarrow>
                  (let rate = coupon l / real nper_per_year in
                   case getitem (scheduled_balance s1) 0 of
                     Inl e \<Rightarrow> (Inl e, s1)
                   | Inr sb0 \<Rightarrow>
                       if nper = 0 then (Inl IndexError, s1)
                       else
                         (case adjust_loop s1 rate [1..<nper] (w0\<lparr>bal := (bal w0)[0 := sb0]\<rparr>) of
                            (Some e, w) \<Rightarrow> (Inl e, put_series w s1)
                          | (None, w) \<Rightarrow>
                              cashflow_totals l nper nper_per_year w (put_series w s1)))))"

subsection \<open>Payment dates\<close>

text \<open>
  Modelled from the spec: \<^verbatim>\<open>pd.date_range\<close> and \<^verbatim>\<open>Timestamp.replace\<close> belong to
  pandas, which is not part of the repository. The spec (4.1) asks for dates "spaced
  by the frequency's calendar step" and names the "month-end date arithmetic"; the
  source (line 112) notes that \<^verbatim>\<open>pd.date_range\<close> "will generate end of month dates".
  The model covers the five codes of \<open>FREQ_PERIOD_MAP\<close>: \<open>D\<close> counts calendar days from
  the start date; \<open>M\<close>, \<open>3M\<close> and \<open>6M\<close> give the ends of every month, third month and
  sixth month from the first month end on or after the start date; \<open>Y\<close> gives the
  31 December of every year from the first one on or after the start date. Another
  code is answered with \<^verbatim>\<open>ValueError\<close>, as pandas answers a code it does not know (the
  further codes that pandas knows are not modelled). \<^verbatim>\<open>replace(day = k)\<close> raises
  \<^verbatim>\<open>ValueError\<close> when the month has no day \<open>k\<close>.

  A pandas \<^verbatim>\<open>Timestamp\<close> counts nanoseconds in 64 bits: its greatest value falls on
  11 April 2262, and a range that would pass it raises \<^verbatim>\<open>OutOfBoundsDatetime\<close>, a
  subclass of \<^verbatim>\<open>ValueError\<close>. For the day code pandas computes the end of the range
  as the start plus \<open>periods\<close> days; for the other codes it rolls the start forward to
  the first date of the series and then steps to the last one.
\<close>

definition within_timestamp_max :: "date \<Rightarrow> bool" where
  "within_timestamp_max t =
     (year t < 2262 \<or> (year t = 2262 \<and> (month t < 4 \<or> (month t = 4 \<and> day t \<le> 11))))"

definition bounded_range :: "date \<Rightarrow> date list \<Rightarrow> error + date list" where
  "bounded_range first raw =
     (if within_timestamp_max first \<and> list_all within_timestamp_max raw then Inr raw
      else Inl (ValueError ''Out of bounds nanosecond timestamp''))"

definition next_day :: "date \<Rightarrow> date" where
  "next_day d =
     (if day d < days_in_month (year d) (month d) then d\<lparr>day := day d + 1\<rparr>
      else if month d < 12 then d\<lparr>month := month d + 1, day := 1\<rparr>
      else \<lparr>year = year d + 1, month = 1, day = 1\<rparr>)"

definition month_end_after :: "int \<Rightarrow> date \<Rightarrow> date" where
  "month_end_after n d =
     (let t = year d * 12 + int (month d) - 1 + n;
          y = t div 12;
          m = nat (t mod 12) + 1
      in \<lparr>year = y, month = m, day = days_in_month y m\<rparr>)"

definition date_range :: "date \<Rightarrow> nat \<Rightarrow> string \<Rightarrow> error + date list" where
  "date_range start periods freq =
     (if freq = ''D'' then
        bounded_range ((next_day ^^ periods) start)
          (map (\<lambda>k. (next_day ^^ k) start) [0..<periods])
      else if freq = ''M'' then
        bounded_range (month_end_after 0 start)
          (map (\<lambda>k. month_end_after (int k) start) [0..<periods])
      else if freq = ''3M'' then
        bounded_range (month_end_after 0 start)
          (map (\<lambda>k. month_end_after (3 * int k) start) [0..<periods])
      else if freq = ''6M'' then
        bounded_range (month_end_after 0 start)
          (map (\<lambda>k. month_end_after (6 * int k) start) [0..<periods])
      else if freq = ''Y'' then
        bounded_range \<lparr>year = year start, month = 12, day = 31\<rparr>
          (map (\<lambda>k. \<lparr>year = year start + int k, month = 12, day = 31\<rparr>) [0..<periods])
      else Inl (ValueError ''Invalid frequency''))"

definition replace_day :: "nat \<Rightarrow> date \<Rightarrow> error + date" where
  "replace_day k t =
     (if 1 \<le> k \<and> k \<le> days_in_month (year t) (month t) then Inr (t\<lparr>day := k\<rparr>)
      else Inl (ValueError ''day is out of range for month''))"

text \<open>\<^verbatim>\<open>list(map(lambda t: t.replace(day = k), dates))\<close>: the first failure ends the map.\<close>

fun replace_days :: "nat \<Rightarrow> date list \<Rightarrow> error + date list" where
  "replace_days k [] = Inr []"
| "replace_days k (t # ts) =
     (case replace_day k t of
        Inl e \<Rightarrow> Inl e
      | Inr t' \<Rightarrow> (case replace_days k ts of Inl e \<Rightarrow> Inl e | Inr ts' \<Rightarrow> Inr (t' # ts')))"

text \<open>
  \<^verbatim>\<open>payment_date\<close> (lines 100 to 114). A negative number of dates gives the empty
  range, on which \<^verbatim>\<open>self.pmt_date[0]\<close> is out of range.
\<close>

definition payment_date :: "date \<Rightarrow> int \<Rightarrow> string \<Rightarrow> amortization \<Rightarrow> unit outcome" where
  "payment_date start_date periods freq s =
     (let nper = periods + 1 in
      case date_range start_date (nat nper) freq of
        Inl e \<Rightarrow> (Inl e, s)
      | Inr ds \<Rightarrow>
          (let s1 = s\<lparr>pmt_date := Some ds\<rparr> in
           case ds of
             [] \<Rightarrow> (Inl IndexError, s1)
           | d0 # rest \<Rightarrow>
               if day start_date \<noteq> day d0 then
                 (case replace_days (day start_date) ds of
                    Inl e \<Rightarrow> (Inl e, s1)
                  | Inr ds' \<Rightarrow> (Inr (), s1\<lparr>pmt_date := Some ds'\<rparr>))
               else (Inr (), s1)))"

subsection \<open>The output table and the orchestration\<close>

text \<open>
  A column handed to \<^verbatim>\<open>pd.DataFrame\<close>: an array, or \<^verbatim>\<open>None\<close>, which pandas spreads
  over the rows. pandas raises \<^verbatim>\<open>ValueError\<close> when two arrays differ in length.
\<close>

datatype column = IntCol "int list" | DateCol "date list" | RealCol "real list" | NoneCol

type_synonym dataframe = "(string \<times> column) list"

fun col_fits :: "nat \<Rightarrow> column \<Rightarrow> bool" where
  "col_fits n (IntCol xs) = (length xs = n)"
| "col_fits n (DateCol xs) = (length xs = n)"
| "col_fits n (RealCol xs) = (length xs = n)"
| "col_fits n NoneCol = True"

definition real_col :: "real list option \<Rightarrow> column" where
  "real_col a = (case a of None \<Rightarrow> NoneCol | Some xs \<Rightarrow> RealCol xs)"

definition int_col :: "int list option \<Rightarrow> column" where
  "int_col a = (case a of None \<Rightarrow> NoneCol | Some xs \<Rightarrow> IntCol xs)"

text \<open>
  \<^verbatim>\<open>to_dataframe\<close> (lines 238 to 259): \<^verbatim>\<open>len(self.pmt_date)\<close> and the slice of
  \<^verbatim>\<open>self.default_rate\<close> raise \<^verbatim>\<open>TypeError\<close> on \<^verbatim>\<open>None\<close>; the slice keeps at most
  \<^verbatim>\<open>len(months)\<close> rates, fewer when the series is shorter.
\<close>

definition to_dataframe :: "amortization \<Rightarrow> error + dataframe" where
  "to_dataframe s =
     (case pmt_date s of
        None \<Rightarrow> Inl TypeError
      | Some ds \<Rightarrow>
          (let n = length ds;
               months = map int [1..<n + 1]
           in case default_rate s of
                None \<Rightarrow> Inl TypeError
              | Some dr \<Rightarrow>
                  (let field_dict =
                         [(''Months'', IntCol months),
                          (''Paymnt_Count'', int_col (pmt_cnt s)),
                          (''Payment_Date'', DateCol ds),
                          (''Scheduled_Principal'', real_col (scheduled_principal s)),
                          (''Scheduled_Interest'', real_col (scheduled_interest s)),
                          (''Scheduled_Balance'', real_col (scheduled_balance s)),
                          (''Prepay_Speed'', real_col (prepay_speed s)),
                          (''Default_Rate'', RealCol (take n dr)),
                          (''Recovery'', real_col (recovery s)),
                          (''Servicing_CF'', real_col (servicing_cf s)),
                          (''Earnout_CF'', real_col (earout_cf s)),
                          (''Balance'', real_col (balance s)),
                          (''Principal'', real_col (principle s)),
                          (''Default'', real_col (default_amt s)),
                          (''Prepay'', real_col (prepay s)),
                          (''Interest_Amount'', real_col (interest s)),
                          (''Total_CF'', real_col (total_cf s))]
                   in if list_all (\<lambda>kc. col_fits n (snd kc)) field_dict then Inr field_dict
                      else Inl (ValueError ''All arrays must be of the same length''))))"

text \<open>\<^verbatim>\<open>calc_cashflows\<close> (lines 215 to 236): the five steps in order, then the table.\<close>

definition calc_cashflows :: "tables \<Rightarrow> loan \<Rightarrow> amortization \<Rightarrow> dataframe outcome" where
  "calc_cashflows T l s =
     then_do (fetch_prepay_speed T (loan_term l) s) (\<lambda>s.
     then_do (if truthy (charge_off_col_num l)
              then fetch_default_rate T (charge_off_col_num l) s
              else fetch_default_rate T (PyStr (charge_off_lookup_key l)) s) (\<lambda>s.
     then_do (payment_date (issue_date l) (loan_term l) (amort_freq l) s) (\<lambda>s.
     then_do (calc_scheduled_cashflow l s) (\<lambda>s.
     then_do (calc_default_prepay_adjust_cashflow l s) (\<lambda>s.
       (to_dataframe s, s))))))"

subsection \<open>Internal rate of return\<close>

text \<open>
  \<^verbatim>\<open>npv\<close> (lines 7 to 9): Python's \<^verbatim>\<open>sum\<close> adds the terms to 0 from the left.
\<close>

definition npv :: "real list \<Rightarrow> real \<Rightarrow> real" where
  "npv cashflow r =
     foldl (+) 0 (map (\<lambda>t. cashflow ! t / (1 + r) ^ t) [0..<length cashflow])"

text \<open>
  What a call of the root-finder ends in: a rate, the exception
  \<^verbatim>\<open>NoConvergence\<close> carrying the current estimate, or another exception.
\<close>

datatype solver_outcome = Returned real | NoConvergence real | Failed error

text \<open>
  \<^verbatim>\<open>irr\<close> (lines 6 to 15), with the root-finder as a parameter, called as
  \<open>solver F x0 f_tol\<close>. The outcome is the value returned or the exception that
  leaves \<^verbatim>\<open>irr\<close>, and the warnings logged. Only \<^verbatim>\<open>NoConvergence\<close> is caught.
\<close>

definition irr ::
  "((real \<Rightarrow> real) \<Rightarrow> real \<Rightarrow> real \<Rightarrow> solver_outcome) \<Rightarrow> real list \<Rightarrow> real
     \<Rightarrow> (error + real) \<times> string list" where
  "irr solver cashflow guess =
     (case solver (npv cashflow) guess (1 / 10 ^ 10) of
        Returned r \<Rightarrow> (Inr r, [])
      | NoConvergence x \<Rightarrow> (Inr x, [''IRR solver doesn't converge!''])
      | Failed e \<Rightarrow> (Inl e, []))"

text \<open>
  Modelled from the spec: \<^verbatim>\<open>scipy.optimize.broyden1\<close> is not part of the repository.
  The spec (4.5) describes "an iterative nonlinear root-finder seeded at the guess,
  converging to an absolute function-value tolerance", which on running out of "its
  iteration budget" gives up with "its best current estimate". The loop tests the
  tolerance on the current iterate before each step and raises \<^verbatim>\<open>NoConvergence\<close>
  with the current iterate once the budget is spent. The quasi-Newton step \<open>update\<close>
  on the iterate and the Jacobian approximation (which can raise), the first
  approximation \<open>jac0\<close> and the budget \<open>maxiter\<close> are parameters.
\<close>

fun nonlin_solve ::
  "((real \<Rightarrow> real) \<Rightarrow> real \<times> 'j \<Rightarrow> error + real \<times> 'j) \<Rightarrow> (real \<Rightarrow> real) \<Rightarrow> real \<Rightarrow> nat
     \<Rightarrow> real \<times> 'j \<Rightarrow> solver_outcome" where
  "nonlin_solve update F f_tol 0 (x, jac) = NoConvergence x"
| "nonlin_solve update F f_tol (Suc n) (x, jac) =
     (if \<bar>F x\<bar> \<le> f_tol then Returned x
      else (case update F (x, jac) of
              Inl e \<Rightarrow> Failed e
            | Inr st \<Rightarrow> nonlin_solve update F f_tol n st))"

definition broyden1 ::
  "((real \<Rightarrow> real) \<Rightarrow> real \<times> 'j \<Rightarrow> error + real \<times> 'j) \<Rightarrow> 'j \<Rightarrow> nat
     \<Rightarrow> (real \<Rightarrow> real) \<Rightarrow> real \<Rightarrow> real \<Rightarrow> solver_outcome" where
  "broyden1 update jac0 maxiter F x0 f_tol = nonlin_solve update F f_tol maxiter (x0, jac0)"

subsection \<open>The order of dates\<close>

text \<open>Earlier in the calendar: by year, then month, then day.\<close>

definition date_less :: "date \<Rightarrow> date \<Rightarrow> bool" where
  "date_less a b =
     (year a < year b
      \<or> (year a = year b \<and> (month a < month b \<or> (month a = month b \<and> day a < day b))))"

section \<open>Concrete inputs\<close>

text \<open>
  A charge-off table of two columns and twenty rows, and a prepay table whose column
  for 18 periods holds 18 speeds followed by two missing cells.
\<close>

definition T0 :: tables where
  "T0 = \<lparr>CHARGED_OFF = [(''18-A1'', replicate 20 (1 / 200)), (''18-C4'', replicate 20 (1 / 100))],
         PREPAY = [(18, map Some (replicate 18 (1 / 50)) @ [None, None])]\<rparr>"

text \<open>
  A monthly loan of 18 periods whose explicit column selector is 0, and an object that
  holds a prepay-speed and a default-rate series for it.
\<close>

definition L0 :: loan where
  "L0 = Loan ''C4'' \<lparr>year = 2015, month = 8, day = 24\<rparr> 18 (12 / 100) 1000 500 (8 / 100)
          (5 / 100) (25 / 1000) (25 / 1000) ''M'' (PyInt 0)"

definition S0 :: amortization where
  "S0 = Amortization\<lparr>prepay_speed := Some (0 # replicate 18 (1 / 50)),
                      default_rate := Some (replicate 20 (1 / 100))\<rparr>"

text \<open>The same loan with 17 periods.\<close>

definition L17 :: loan where
  "L17 = L0\<lparr>loan_term := 17\<rparr>"

text \<open>A monthly loan of two periods at a coupon of \<open>- 12\<close>, a periodic rate of \<open>- 1\<close>.\<close>

definition Lneg :: loan where
  "Lneg = Loan ''C4'' \<lparr>year = 2015, month = 8, day = 24\<rparr> 2 (- 12) 1000 500 (8 / 100)
            (5 / 100) (25 / 1000) (25 / 1000) ''M'' PyNone"

text \<open>The loan \<open>L0\<close> with the column selector \<open>- 2\<close>.\<close>

definition Lm2 :: loan where
  "Lm2 = L0\<lparr>charge_off_col_num := PyInt (- 2)\<rparr>"

text \<open>The tables \<open>T0\<close> without the column of the key \<open>18-C4\<close>.\<close>

definition T1 :: tables where
  "T1 = \<lparr>CHARGED_OFF = [(''18-A1'', replicate 20 (1 / 200))],
         PREPAY = [(18, map Some (replicate 18 (1 / 50)) @ [None, None])]\<rparr>"

section \<open>Properties\<close>

subsection \<open>Sequencing\<close>

lemma fetch_default_rate_fail_state:
  "fst (fetch_default_rate T sel s) = Inl e \<Longrightarrow> snd (fetch_default_rate T sel s) = s"
  by (auto simp: fetch_default_rate_def Let_def split: pyval.splits option.splits if_splits)

lemma then_do_Inl [simp]: "then_do (Inl e, s) f = (Inl e, s)"
  by (simp add: then_do_def)

lemma then_do_Inr [simp]: "then_do (Inr u, s) f = f s"
  by (simp add: then_do_def)

lemma map_of_None_iff: "map_of xs k = None \<longleftrightarrow> k \<notin> fst ` set xs"
  by (simp add: map_of_eq_None_iff)

subsection \<open>The charge-off selector\<close>

text \<open>
  C8, as the code has it. With an integer selector \<open>c\<close> and a table of \<open>n\<close> columns,
  \<open>fetch_default_rate\<close> raises the \<open>ValueError\<close> of line 141 exactly when \<open>n \<le> c\<close>,
  raises the \<open>IndexError\<close> of the positional read exactly when \<open>c < - n\<close>, and otherwise
  stores a column: column \<open>c\<close> when \<open>0 \<le> c\<close>, column \<open>n + c\<close>, counted from the end, when
  \<open>c\<close> is negative. With a string selector it raises the \<open>KeyError\<close> of line 146 exactly
  when no column has that label, and otherwise stores the column of that label. With
  a bool it always raises \<open>ValueError\<close>: the one of line 141 exactly when the bool, read
  as 1 or 0, is not below \<open>n\<close>, and the one of the positional read otherwise. With
  \<open>None\<close> or a value of another type it raises the \<open>KeyError\<close> of line 150. A failure
  stores nothing, and in \<open>calc_cashflows\<close> it ends the computation with that
  exception, the object being as step 1 left it: holding the prepay speeds and no
  date, schedule or cash flow.
\<close>

theorem fetch_default_rate_selector:
  fixes T :: tables and s :: amortization and c :: int and k :: string
  defines "n \<equiv> int (length (CHARGED_OFF T))"
  shows
  "(fst (fetch_default_rate T (PyInt c) s)
      = Inl (ValueError (str_int c @ '' exceeds Charge Off table's column index.''))
      \<longleftrightarrow> n \<le> c)
   \<and> (fst (fetch_default_rate T (PyInt c) s) = Inl IndexError \<longleftrightarrow> c < - n)
   \<and> (0 \<le> c \<and> c < n \<longrightarrow>
        fetch_default_rate T (PyInt c) s
          = (Inr (), s\<lparr>default_rate := Some (snd (CHARGED_OFF T ! nat c))\<rparr>))
   \<and> (- n \<le> c \<and> c < 0 \<longrightarrow>
        fetch_default_rate T (PyInt c) s
          = (Inr (), s\<lparr>default_rate := Some (snd (CHARGED_OFF T ! nat (n + c)))\<rparr>))
   \<and> (fst (fetch_default_rate T (PyStr k) s)
         = Inl (KeyError (k @ '' cannot be found in the Charge Off table''))
       \<longleftrightarrow> k \<notin> fst ` set (CHARGED_OFF T))
   \<and> (\<forall>col. map_of (CHARGED_OFF T) k = Some col \<longrightarrow>
         fetch_default_rate T (PyStr k) s = (Inr (), s\<lparr>default_rate := Some col\<rparr>))
   \<and> (\<forall>b. \<exists>msg. fetch_default_rate T (PyBool b) s = (Inl (ValueError msg), s))
   \<and> (\<forall>b. fst (fetch_default_rate T (PyBool b) s)
          = Inl (ValueError (str_bool b @ '' exceeds Charge Off table's column index.''))
        \<longleftrightarrow> n \<le> int_of_bool b)
   \<and> fst (fetch_default_rate T PyNone s)
        = Inl (KeyError ''chargeoff_col argument must be either a str or an int'')
   \<and> (\<forall>b. fst (fetch_default_rate T (PyOther b) s)
        = Inl (KeyError ''chargeoff_col argument must be either a str or an int''))
   \<and> (\<forall>sel e. fst (fetch_default_rate T sel s) = Inl e \<longrightarrow> snd (fetch_default_rate T sel s) = s)
   \<and> (\<forall>l s1 e. fetch_prepay_speed T (loan_term l) s = (Inr (), s1)
         \<and> fst (fetch_default_rate T
                  (if truthy (charge_off_col_num l) then charge_off_col_num l
                   else PyStr (charge_off_lookup_key l)) s1) = Inl e
         \<longrightarrow> calc_cashflows T l s = (Inl e, s1))"
proof -
  have fail: "\<And>sel e s. fst (fetch_default_rate T sel s) = Inl e \<Longrightarrow> fetch_default_rate T sel s = (Inl e, s)"
    using fetch_default_rate_fail_state by (metis prod.collapse)
  have a: "fst (fetch_default_rate T (PyInt c) s)
      = Inl (ValueError (str_int c @ '' exceeds Charge Off table's column index.''))
      \<longleftrightarrow> n \<le> c"
    by (simp add: fetch_default_rate_def Let_def n_def)
  have b: "fst (fetch_default_rate T (PyInt c) s) = Inl IndexError \<longleftrightarrow> c < - n"
    by (simp add: fetch_default_rate_def Let_def n_def)
  have c: "0 \<le> c \<and> c < n \<longrightarrow>
        fetch_default_rate T (PyInt c) s
          = (Inr (), s\<lparr>default_rate := Some (snd (CHARGED_OFF T ! nat c))\<rparr>)"
    by (simp add: fetch_default_rate_def Let_def n_def)
  have d: "- n \<le> c \<and> c < 0 \<longrightarrow>
        fetch_default_rate T (PyInt c) s
          = (Inr (), s\<lparr>default_rate := Some (snd (CHARGED_OFF T ! nat (n + c)))\<rparr>)"
    by (simp add: fetch_default_rate_def Let_def n_def)
  have e: "fst (fetch_default_rate T (PyStr k) s)
         = Inl (KeyError (k @ '' cannot be found in the Charge Off table''))
       \<longleftrightarrow> k \<notin> fst ` set (CHARGED_OFF T)"
    by (auto simp: fetch_default_rate_def map_of_None_iff[symmetric] split: option.splits)
  have f: "\<forall>col. map_of (CHARGED_OFF T) k = Some col \<longrightarrow>
         fetch_default_rate T (PyStr k) s = (Inr (), s\<lparr>default_rate := Some col\<rparr>)"
    by (simp add: fetch_default_rate_def)
  have g: "fst (fetch_default_rate T PyNone s)
        = Inl (KeyError ''chargeoff_col argument must be either a str or an int'')"
    "\<forall>b. fst (fetch_default_rate T (PyOther b) s)
        = Inl (KeyError ''chargeoff_col argument must be either a str or an int'')"
    by (simp_all add: fetch_default_rate_def)
  have h: "\<forall>sel e. fst (fetch_default_rate T sel s) = Inl e \<longrightarrow> snd (fetch_default_rate T sel s) = s"
    using fetch_default_rate_fail_state by blast
  have j: "\<forall>b. \<exists>msg. fetch_default_rate T (PyBool b) s = (Inl (ValueError msg), s)"
    by (simp add: fetch_default_rate_def Let_def)
  have k: "\<forall>b. fst (fetch_default_rate T (PyBool b) s)
          = Inl (ValueError (str_bool b @ '' exceeds Charge Off table's column index.''))
        \<longleftrightarrow> n \<le> int_of_bool b"
    by (simp add: fetch_default_rate_def Let_def n_def str_bool_def)
  have i: "\<forall>l s1 e. fetch_prepay_speed T (loan_term l) s = (Inr (), s1)
         \<and> fst (fetch_default_rate T
                  (if truthy (charge_off_col_num l) then charge_off_col_num l
                   else PyStr (charge_off_lookup_key l)) s1) = Inl e
         \<longrightarrow> calc_cashflows T l s = (Inl e, s1)"
    by (auto simp: calc_cashflows_def dest!: fail)
  from a b c d e f g h i j k show ?thesis by blast
qed

text \<open>The same at the table \<open>T0\<close>, whose columns are 0 and 1.\<close>

theorem fetch_default_rate_selector_witness:
  "fst (fetch_default_rate T0 (PyInt 2) Amortization)
     = Inl (ValueError ''2 exceeds Charge Off table's column index.'')
   \<and> fst (fetch_default_rate T0 (PyInt (- 3)) Amortization) = Inl IndexError
   \<and> fetch_default_rate T0 (PyInt 1) Amortization
       = (Inr (), Amortization\<lparr>default_rate := Some (replicate 20 (1 / 100))\<rparr>)
   \<and> fetch_default_rate T0 (PyInt (- 2)) Amortization
       = (Inr (), Amortization\<lparr>default_rate := Some (replicate 20 (1 / 200))\<rparr>)
   \<and> fst (fetch_default_rate T0 (PyStr ''36-C4'') Amortization)
       = Inl (KeyError ''36-C4 cannot be found in the Charge Off table'')
   \<and> fetch_default_rate T0 (PyStr ''18-C4'') Amortization
       = (Inr (), Amortization\<lparr>default_rate := Some (replicate 20 (1 / 100))\<rparr>)
   \<and> (\<exists>msg. fetch_default_rate T0 (PyBool True) Amortization
                = (Inl (ValueError msg), Amortization))
   \<and> fst (fetch_default_rate T0 (PyBool True) Amortization)
       \<noteq> Inl (ValueError ''True exceeds Charge Off table's column index.'')
   \<and> snd (fetch_default_rate T0 (PyInt 2) Amortization) = Amortization"
proof -
  note t = fetch_default_rate_selector [of T0 2 Amortization "''36-C4''"]
  from t have b1: "\<exists>msg. fetch_default_rate T0 (PyBool True) Amortization
                          = (Inl (ValueError msg), Amortization)"
    by (elim conjE) (erule allE [of _ True])
  from t have b2: "fst (fetch_default_rate T0 (PyBool True) Amortization)
          = Inl (ValueError (str_bool True @ '' exceeds Charge Off table's column index.''))
        \<longleftrightarrow> int (length (CHARGED_OFF T0)) \<le> int_of_bool True"
    by (elim conjE) (erule allE [of _ True])
  from b1 b2 t
    fetch_default_rate_selector [of T0 "- 3" Amortization "''18-C4''"]
    fetch_default_rate_selector [of T0 1 Amortization "''18-C4''"]
    fetch_default_rate_selector [of T0 "- 2" Amortization "''18-C4''"]
  show ?thesis
    by (simp add: T0_def str_int_def str_nat.simps str_bool_def int_of_bool_def)
qed

text \<open>
  C8 as stated fails for an index before the first column: \<open>- 3\<close> does not exceed the
  column count 2 of \<open>T0\<close>, and yet the call fails and stores no column.
\<close>

theorem fetch_default_rate_negative_index:
  "\<not> int (length (CHARGED_OFF T0)) < - 3
   \<and> fetch_default_rate T0 (PyInt (- 3)) Amortization = (Inl IndexError, Amortization)"
  by (simp add: fetch_default_rate_def T0_def)

subsection \<open>The adjustment loop\<close>

lemma getitem_Inr_iff:
  "getitem a i = Inr v \<longleftrightarrow> (\<exists>xs. a = Some xs \<and> i < length xs \<and> v = xs ! i)"
  by (auto simp: getitem_def split: option.splits)

lemma put_series_reads [simp]:
  "default_rate (put_series w s) = default_rate s"
  "prepay_speed (put_series w s) = prepay_speed s"
  "scheduled_principal (put_series w s) = scheduled_principal s"
  "scheduled_interest (put_series w s) = scheduled_interest s"
  "scheduled_balance (put_series w s) = scheduled_balance s"
  "default_multiplier (put_series w s) = default_multiplier s"
  "prepay_multiplier (put_series w s) = prepay_multiplier s"
  "pmt_cnt (put_series w s) = pmt_cnt s"
  "pmt_date (put_series w s) = pmt_date s"
  by (simp_all add: put_series_def)

lemma put_series_writes [simp]:
  "balance (put_series w s) = Some (bal w)"
  "default_amt (put_series w s) = Some (dflt w)"
  "prepay (put_series w s) = Some (pre w)"
  "principle (put_series w s) = Some (prin w)"
  "interest (put_series w s) = Some (intr w)"
  by (simp_all add: put_series_def)

lemma adjust_period_None:
  assumes "adjust_period s rate i w = (None, w')"
  shows "\<exists>dr si sb sp ps.
           default_rate s = Some dr \<and> i - 1 < length dr
         \<and> scheduled_interest s = Some si \<and> i < length si
         \<and> scheduled_balance s = Some sb \<and> i - 1 < length sb
         \<and> scheduled_principal s = Some sp \<and> i < length sp
         \<and> prepay_speed s = Some ps \<and> i < length ps
         \<and> w' = (let b = bal w ! (i - 1);
                      w1 = w\<lparr>dflt := (dflt w)[i := b * dr ! (i - 1) * default_multiplier s]\<rparr>;
                      w2 = w1\<lparr>pre := (pre w1)[i :=
                             (b - (b - si ! i) / sb ! (i - 1) * sp ! i) * ps ! i * prepay_multiplier s]\<rparr>;
                      w3 = w2\<lparr>prin := (prin w2)[i :=
                             (b - dflt w2 ! i) * sp ! i / sb ! (i - 1) + pre w2 ! i]\<rparr>;
                      w4 = w3\<lparr>bal := (bal w3)[i := b - prin w3 ! i - dflt w3 ! i]\<rparr>
                  in w4\<lparr>intr := (intr w4)[i := (b - dflt w4 ! i) * rate]\<rparr>)"
  using assms
  by (auto simp: adjust_period_def Let_def getitem_Inr_iff split: sum.splits)

lemma adjust_loop_append:
  "adjust_loop s rate (xs @ ys) w =
     (case adjust_loop s rate xs w of
        (Some e, w') \<Rightarrow> (Some e, w')
      | (None, w') \<Rightarrow> adjust_loop s rate ys w')"
  by (induction xs arbitrary: w) (auto split: prod.splits option.splits)

lemma adjust_loop_reads:
  "adjust_loop s rate js w = (None, w') \<Longrightarrow> i \<in> set js \<Longrightarrow>
     \<exists>dr si sb sp ps.
           default_rate s = Some dr \<and> i - 1 < length dr
         \<and> scheduled_interest s = Some si \<and> i < length si
         \<and> scheduled_balance s = Some sb \<and> i - 1 < length sb
         \<and> scheduled_principal s = Some sp \<and> i < length sp
         \<and> prepay_speed s = Some ps \<and> i < length ps"
proof (induction js arbitrary: w)
  case Nil
  then show ?case by simp
next
  case (Cons j js)
  from Cons.prems(1) obtain w1 where
    p: "adjust_period s rate j w = (None, w1)" and r: "adjust_loop s rate js w1 = (None, w')"
    by (auto split: prod.splits option.splits)
  show ?case
  proof (cases "i = j")
    case True
    with adjust_period_None [OF p] show ?thesis by blast
  next
    case False
    with Cons.prems(2) have "i \<in> set js" by simp
    from Cons.IH [OF r this] show ?thesis .
  qed
qed

text \<open>One pass changes index \<open>i\<close> of the five arrays and nothing else.\<close>

lemma adjust_period_row:
  assumes p: "adjust_period s rate i w = (None, w')"
    and len: "length (bal w) = N" "length (dflt w) = N" "length (pre w) = N"
             "length (prin w) = N" "length (intr w) = N" "i < N"
    and src: "default_rate s = Some dr" "scheduled_interest s = Some si"
             "scheduled_balance s = Some sb" "scheduled_principal s = Some sp"
             "prepay_speed s = Some ps"
  shows "length (bal w') = N" "length (dflt w') = N" "length (pre w') = N"
        "length (prin w') = N" "length (intr w') = N"
    and "\<And>j. j \<noteq> i \<Longrightarrow> bal w' ! j = bal w ! j \<and> dflt w' ! j = dflt w ! j \<and> pre w' ! j = pre w ! j
                    \<and> prin w' ! j = prin w ! j \<and> intr w' ! j = intr w ! j"
    and "dflt w' ! i = bal w ! (i - 1) * dr ! (i - 1) * default_multiplier s"
    and "pre w' ! i = (bal w ! (i - 1) - (bal w ! (i - 1) - si ! i) / sb ! (i - 1) * sp ! i)
                        * ps ! i * prepay_multiplier s"
    and "prin w' ! i = (bal w ! (i - 1) - dflt w' ! i) * sp ! i / sb ! (i - 1) + pre w' ! i"
    and "bal w' ! i = bal w ! (i - 1) - prin w' ! i - dflt w' ! i"
    and "intr w' ! i = (bal w ! (i - 1) - dflt w' ! i) * rate"
  using adjust_period_None [OF p] len src by (simp_all add: Let_def)

lemma upt_1_Suc: "1 \<le> n \<Longrightarrow> [1..<Suc n] = [1..<n] @ [n]"
  by simp

lemma adjust_loop_rows:
  assumes ok: "adjust_loop s rate [1..<n] w0 = (None, w)"
    and len: "length (bal w0) = N" "length (dflt w0) = N" "length (pre w0) = N"
             "length (prin w0) = N" "length (intr w0) = N" "n \<le> N"
    and src: "default_rate s = Some dr" "scheduled_interest s = Some si"
             "scheduled_balance s = Some sb" "scheduled_principal s = Some sp"
             "prepay_speed s = Some ps"
  shows "(length (bal w) = N \<and> length (dflt w) = N \<and> length (pre w) = N
          \<and> length (prin w) = N \<and> length (intr w) = N)
       \<and> (\<forall>j. j = 0 \<or> n \<le> j \<longrightarrow>
            bal w ! j = bal w0 ! j \<and> dflt w ! j = dflt w0 ! j \<and> pre w ! j = pre w0 ! j
            \<and> prin w ! j = prin w0 ! j \<and> intr w ! j = intr w0 ! j)
       \<and> (\<forall>i. 1 \<le> i \<and> i < n \<longrightarrow>
            dflt w ! i = bal w ! (i - 1) * dr ! (i - 1) * default_multiplier s
          \<and> pre w ! i = (bal w ! (i - 1) - (bal w ! (i - 1) - si ! i) / sb ! (i - 1) * sp ! i)
                          * ps ! i * prepay_multiplier s
          \<and> prin w ! i = (bal w ! (i - 1) - dflt w ! i) * sp ! i / sb ! (i - 1) + pre w ! i
          \<and> bal w ! i = bal w ! (i - 1) - prin w ! i - dflt w ! i
          \<and> intr w ! i = (bal w ! (i - 1) - dflt w ! i) * rate)"
  using ok len(6)
proof (induction n arbitrary: w)
  case 0
  then show ?case using len by simp
next
  case (Suc n)
  show ?case
  proof (cases "n = 0")
    case True
    with Suc.prems len show ?thesis by simp
  next
    case False
    then have n1: "1 \<le> n" by simp
    from Suc.prems(1) obtain w1 where
      l1: "adjust_loop s rate [1..<n] w0 = (None, w1)" and
      p: "adjust_period s rate n w1 = (None, w)"
      unfolding upt_1_Suc [OF n1] adjust_loop_append
      by (auto split: prod.splits option.splits)
    from Suc.prems(2) have nN: "n \<le> N" "n < N" by simp_all
    note IH = Suc.IH [OF l1 nN(1)]
    from IH have l: "length (bal w1) = N" "length (dflt w1) = N" "length (pre w1) = N"
        "length (prin w1) = N" "length (intr w1) = N" by simp_all
    note row = adjust_period_row [OF p l nN(2) src]
    have frame: "\<And>j. j \<noteq> n \<Longrightarrow> bal w ! j = bal w1 ! j \<and> dflt w ! j = dflt w1 ! j
          \<and> pre w ! j = pre w1 ! j \<and> prin w ! j = prin w1 ! j \<and> intr w ! j = intr w1 ! j"
      using row(6) by blast
    have A: "length (bal w) = N \<and> length (dflt w) = N \<and> length (pre w) = N
          \<and> length (prin w) = N \<and> length (intr w) = N"
      using row(1-5) by simp
    have B: "\<forall>j. j = 0 \<or> Suc n \<le> j \<longrightarrow>
            bal w ! j = bal w0 ! j \<and> dflt w ! j = dflt w0 ! j \<and> pre w ! j = pre w0 ! j
            \<and> prin w ! j = prin w0 ! j \<and> intr w ! j = intr w0 ! j"
    proof (intro allI impI)
      fix j assume j: "j = 0 \<or> Suc n \<le> j"
      with n1 have "j \<noteq> n" by auto
      moreover from j have "j = 0 \<or> n \<le> j" by auto
      ultimately show "bal w ! j = bal w0 ! j \<and> dflt w ! j = dflt w0 ! j \<and> pre w ! j = pre w0 ! j
            \<and> prin w ! j = prin w0 ! j \<and> intr w ! j = intr w0 ! j"
        using frame [of j] IH by simp
    qed
    have C: "\<forall>i. 1 \<le> i \<and> i < Suc n \<longrightarrow>
            dflt w ! i = bal w ! (i - 1) * dr ! (i - 1) * default_multiplier s
          \<and> pre w ! i = (bal w ! (i - 1) - (bal w ! (i - 1) - si ! i) / sb ! (i - 1) * sp ! i)
                          * ps ! i * prepay_multiplier s
          \<and> prin w ! i = (bal w ! (i - 1) - dflt w ! i) * sp ! i / sb ! (i - 1) + pre w ! i
          \<and> bal w ! i = bal w ! (i - 1) - prin w ! i - dflt w ! i
          \<and> intr w ! i = (bal w ! (i - 1) - dflt w ! i) * rate"
    proof (intro allI impI)
      fix i assume i: "1 \<le> i \<and> i < Suc n"
      show "dflt w ! i = bal w ! (i - 1) * dr ! (i - 1) * default_multiplier s
          \<and> pre w ! i = (bal w ! (i - 1) - (bal w ! (i - 1) - si ! i) / sb ! (i - 1) * sp ! i)
                          * ps ! i * prepay_multiplier s
          \<and> prin w ! i = (bal w ! (i - 1) - dflt w ! i) * sp ! i / sb ! (i - 1) + pre w ! i
          \<and> bal w ! i = bal w ! (i - 1) - prin w ! i - dflt w ! i
          \<and> intr w ! i = (bal w ! (i - 1) - dflt w ! i) * rate"
      proof (cases "i = n")
        case True
        have "bal w ! (n - 1) = bal w1 ! (n - 1)" using frame [of "n - 1"] n1 by simp
        with row(7-11) True show ?thesis by simp
      next
        case False
        with i have lt: "1 \<le> i \<and> i < n" by simp
        then have "i \<noteq> n" "i - 1 \<noteq> n" by auto
        with frame [of i] frame [of "i - 1"] IH lt show ?thesis by simp
      qed
    qed
    from A B C show ?thesis by blast
  qed
qed


lemma length_balance_loop [simp]: "length (balance_loop sp js sb) = length sb"
  by (induction js arbitrary: sb) simp_all

lemma balance_loop_frame: "j \<notin> set js \<Longrightarrow> balance_loop sp js sb ! j = sb ! j"
  by (induction js arbitrary: sb) auto

lemma length_zeros [simp]: "length (zeros n) = n"
  by (simp add: zeros_def)

lemma nth_zeros [simp]: "i < n \<Longrightarrow> zeros n ! i = 0"
  by (simp add: zeros_def)

lemma calc_scheduled_Inr:
  assumes "calc_scheduled_cashflow l s = (Inr (), s')"
  shows "\<exists>ppy. FREQ_PERIOD_MAP (amort_freq l) = Some ppy \<and> 0 \<le> loan_term l
         \<and> s' = (let rate = coupon l / real ppy;
                      n = nat (loan_term l + 1);
                      sp = take 1 (zeros n) @
                             map (\<lambda>per. ppmt rate per (nat (loan_term l)) (- invested l)) [1..<n];
                      si = take 1 (zeros n) @
                             map (\<lambda>per. ipmt rate per (nat (loan_term l)) (- invested l)) [1..<n]
                  in s\<lparr>pmt_cnt := Some (map int [0..<n]), scheduled_principal := Some sp,
                       scheduled_interest := Some si,
                       scheduled_balance :=
                         Some (balance_loop sp [1..<n] ((zeros n)[0 := invested l]))\<rparr>)"
  using assms
  by (auto simp: calc_scheduled_cashflow_def Let_def split: option.splits if_splits)

lemma calc_scheduled_facts:
  assumes "calc_scheduled_cashflow l s = (Inr (), s')"
  shows "0 \<le> loan_term l"
    and "\<exists>cnt. pmt_cnt s' = Some cnt \<and> length cnt = nat (loan_term l + 1)"
    and "\<exists>sb. scheduled_balance s' = Some sb \<and> length sb = nat (loan_term l + 1)
              \<and> sb ! 0 = invested l"
    and "\<exists>sp. scheduled_principal s' = Some sp \<and> length sp = nat (loan_term l + 1) \<and> sp ! 0 = 0"
    and "\<exists>si. scheduled_interest s' = Some si \<and> length si = nat (loan_term l + 1) \<and> si ! 0 = 0"
    and "default_rate s' = default_rate s" and "prepay_speed s' = prepay_speed s"
    and "default_multiplier s' = default_multiplier s"
    and "prepay_multiplier s' = prepay_multiplier s"
    and "pmt_date s' = pmt_date s"
proof -
  from calc_scheduled_Inr [OF assms] obtain ppy where
    t: "0 \<le> loan_term l" and s': "s' = (let rate = coupon l / real ppy;
                      n = nat (loan_term l + 1);
                      sp = take 1 (zeros n) @
                             map (\<lambda>per. ppmt rate per (nat (loan_term l)) (- invested l)) [1..<n];
                      si = take 1 (zeros n) @
                             map (\<lambda>per. ipmt rate per (nat (loan_term l)) (- invested l)) [1..<n]
                  in s\<lparr>pmt_cnt := Some (map int [0..<n]), scheduled_principal := Some sp,
                       scheduled_interest := Some si,
                       scheduled_balance :=
                         Some (balance_loop sp [1..<n] ((zeros n)[0 := invested l]))\<rparr>)"
    by blast
  from t have n: "0 < nat (loan_term l + 1)" by simp
  then have tk: "take (Suc 0) (zeros (nat (loan_term l + 1))) = [0]"
    by (cases "nat (loan_term l + 1)") (simp_all add: zeros_def)
  show "0 \<le> loan_term l" by fact
  show "\<exists>cnt. pmt_cnt s' = Some cnt \<and> length cnt = nat (loan_term l + 1)"
    by (simp add: s' Let_def)
  show "\<exists>sb. scheduled_balance s' = Some sb \<and> length sb = nat (loan_term l + 1)
              \<and> sb ! 0 = invested l"
    using n by (simp add: s' Let_def balance_loop_frame)
  show "\<exists>sp. scheduled_principal s' = Some sp \<and> length sp = nat (loan_term l + 1) \<and> sp ! 0 = 0"
    using n by (simp add: s' Let_def tk)
  show "\<exists>si. scheduled_interest s' = Some si \<and> length si = nat (loan_term l + 1) \<and> si ! 0 = 0"
    using n by (simp add: s' Let_def tk)
  show "default_rate s' = default_rate s" "prepay_speed s' = prepay_speed s"
    "default_multiplier s' = default_multiplier s" "prepay_multiplier s' = prepay_multiplier s"
    "pmt_date s' = pmt_date s"
    by (simp_all add: s' Let_def)
qed

lemma adjust_period_put_series [simp]:
  "adjust_period (put_series w0 s) rate i w = adjust_period s rate i w"
  by (simp only: adjust_period_def put_series_reads)

lemma adjust_loop_put_series [simp]:
  "adjust_loop (put_series w0 s) rate js w = adjust_loop s rate js w"
  by (induction js arbitrary: w) (simp_all split: prod.splits option.splits)

lemma put_series_twice [simp]: "put_series w (put_series w0 s) = put_series w s"
  by (simp add: put_series_def)

lemma cashflow_totals_Inr:
  assumes "cashflow_totals l nper ppy w s = (Inr (), s')"
  shows "18 < nper"
    and "s' = (let rc = map (\<lambda>d. d * recovery_rate l) (dflt w);
                   sv = take 1 (zeros nper) @
                          map (\<lambda>i. (bal w ! i - dflt w ! (i + 1)) * servicing_fee l / real ppy)
                            [0..<nper - 1];
                   eo = (zeros nper)[12 := earnout_fee l / 2 * invested l,
                                     18 := earnout_fee l / 2 * invested l];
                   tot = map (\<lambda>i. prin w ! i + intr w ! i + rc ! i - sv ! i - eo ! i) [0..<nper]
               in s\<lparr>recovery := Some rc, servicing_cf := Some sv, earout_cf := Some eo,
                    total_cf := Some (tot[0 := - invested l * (1 + premium l)])\<rparr>)"
  using assms by (auto simp: cashflow_totals_def Let_def split: if_splits)

lemma calc_adjust_Inr:
  assumes "calc_default_prepay_adjust_cashflow l s = (Inr (), s')"
  shows "\<exists>cnt ppy sb w.
           pmt_cnt s = Some cnt \<and> 18 < length cnt
         \<and> FREQ_PERIOD_MAP (amort_freq l) = Some ppy
         \<and> scheduled_balance s = Some sb \<and> sb \<noteq> []
         \<and> adjust_loop s (coupon l / real ppy) [1..<length cnt]
              \<lparr>bal = (zeros (length cnt))[0 := sb ! 0], dflt = zeros (length cnt),
               pre = zeros (length cnt), prin = zeros (length cnt),
               intr = zeros (length cnt)\<rparr> = (None, w)
         \<and> cashflow_totals l (length cnt) ppy w (put_series w s) = (Inr (), s')"
proof -
  from assms obtain cnt where cnt: "pmt_cnt s = Some cnt"
    by (auto simp: calc_default_prepay_adjust_cashflow_def split: option.splits)
  from assms cnt obtain ppy where ppy: "FREQ_PERIOD_MAP (amort_freq l) = Some ppy"
    by (auto simp: calc_default_prepay_adjust_cashflow_def Let_def split: option.splits)
  from assms cnt ppy obtain sb0 where sb0: "getitem (scheduled_balance s) 0 = Inr sb0"
    by (auto simp: calc_default_prepay_adjust_cashflow_def Let_def split: sum.splits)
  then obtain sb where sb: "scheduled_balance s = Some sb" "sb \<noteq> []" "sb0 = sb ! 0"
    by (auto simp: getitem_Inr_iff)
  from assms cnt ppy sb0 have n0: "length cnt \<noteq> 0"
    by (auto simp: calc_default_prepay_adjust_cashflow_def Let_def split: if_splits)
  from assms cnt ppy sb0 n0 obtain w where
    lp: "adjust_loop s (coupon l / real ppy) [1..<length cnt]
              \<lparr>bal = (zeros (length cnt))[0 := sb0], dflt = zeros (length cnt),
               pre = zeros (length cnt), prin = zeros (length cnt),
               intr = zeros (length cnt)\<rparr> = (None, w)"
    and ct: "cashflow_totals l (length cnt) ppy w (put_series w s) = (Inr (), s')"
    by (auto simp: calc_default_prepay_adjust_cashflow_def Let_def
          split: prod.splits option.splits)
  from cashflow_totals_Inr(1) [OF ct] have "18 < length cnt" .
  with cnt ppy sb lp ct show ?thesis by blast
qed

lemma adjust_loop_lengths:
  "adjust_loop s rate js w = (None, w') \<Longrightarrow>
     length (bal w') = length (bal w) \<and> length (dflt w') = length (dflt w)
   \<and> length (pre w') = length (pre w) \<and> length (prin w') = length (prin w)
   \<and> length (intr w') = length (intr w)"
proof (induction js arbitrary: w)
  case Nil
  then show ?case by simp
next
  case (Cons j js)
  from Cons.prems obtain w1 where
    p: "adjust_period s rate j w = (None, w1)" and r: "adjust_loop s rate js w1 = (None, w')"
    by (auto split: prod.splits option.splits)
  from adjust_period_None [OF p] have
    "length (bal w1) = length (bal w) \<and> length (dflt w1) = length (dflt w)
   \<and> length (pre w1) = length (pre w) \<and> length (prin w1) = length (prin w)
   \<and> length (intr w1) = length (intr w)"
    by (auto simp: Let_def)
  with Cons.IH [OF r] show ?case by simp
qed

lemma adjust_period_total:
  assumes "default_rate s = Some dr" "i - 1 < length dr"
    "scheduled_interest s = Some si" "i < length si"
    "scheduled_balance s = Some sb" "i - 1 < length sb"
    "scheduled_principal s = Some sp" "i < length sp"
    "prepay_speed s = Some ps" "i < length ps"
  shows "\<exists>w'. adjust_period s rate i w = (None, w')"
  using assms by (simp add: adjust_period_def getitem_def Let_def)

lemma adjust_loop_total:
  assumes "default_rate s = Some dr" "scheduled_interest s = Some si"
    "scheduled_balance s = Some sb" "scheduled_principal s = Some sp"
    "prepay_speed s = Some ps"
    and "\<forall>i \<in> set js. i - 1 < length dr \<and> i < length si \<and> i - 1 < length sb
            \<and> i < length sp \<and> i < length ps"
  shows "\<exists>w'. adjust_loop s rate js w = (None, w')"
  using assms(6)
proof (induction js arbitrary: w)
  case Nil
  then show ?case by simp
next
  case (Cons j js)
  from Cons.prems have "j - 1 < length dr" "j < length si" "j - 1 < length sb"
    "j < length sp" "j < length ps" by simp_all
  from adjust_period_total [OF assms(1) this(1) assms(2) this(2) assms(3) this(3)
      assms(4) this(4) assms(5) this(5)]
  obtain w1 where p: "adjust_period s rate j w = (None, w1)" by blast
  from Cons.prems have "\<forall>i \<in> set js. i - 1 < length dr \<and> i < length si \<and> i - 1 < length sb
            \<and> i < length sp \<and> i < length ps" by simp
  from Cons.IH [OF this] obtain w' where "adjust_loop s rate js w1 = (None, w')" by blast
  with p show ?case by simp
qed

lemma fst_cashflow_totals:
  "fst (cashflow_totals l nper ppy w s) = (if nper \<le> 18 then Inl IndexError else Inr ())"
  by (simp add: cashflow_totals_def Let_def)

lemma calc_adjust_unfold:
  assumes "pmt_cnt s = Some cnt" "cnt \<noteq> []" "FREQ_PERIOD_MAP (amort_freq l) = Some ppy"
    "scheduled_balance s = Some sb" "sb \<noteq> []"
    "adjust_loop s (coupon l / real ppy) [1..<length cnt]
              \<lparr>bal = (zeros (length cnt))[0 := sb ! 0], dflt = zeros (length cnt),
               pre = zeros (length cnt), prin = zeros (length cnt),
               intr = zeros (length cnt)\<rparr> = (None, w)"
  shows "calc_default_prepay_adjust_cashflow l s
           = cashflow_totals l (length cnt) ppy w (put_series w s)"
  using assms
  by (simp add: calc_default_prepay_adjust_cashflow_def Let_def getitem_def)

lemma calc_scheduled_succeeds:
  assumes "FREQ_PERIOD_MAP (amort_freq l) = Some ppy" "0 \<le> loan_term l"
  shows "fst (calc_scheduled_cashflow l s) = Inr ()"
  using assms by (simp add: calc_scheduled_cashflow_def Let_def)

text \<open>After the schedule, with rates and speeds for every period, only the earnout can fail.\<close>

lemma calc_adjust_after_schedule:
  assumes sch: "calc_scheduled_cashflow l s0 = (Inr (), s)"
    and dr: "default_rate s = Some dr" "nat (loan_term l) \<le> length dr"
    and ps: "prepay_speed s = Some ps" "nat (loan_term l + 1) \<le> length ps"
  shows "fst (calc_default_prepay_adjust_cashflow l s)
           = (if loan_term l < 18 then Inl IndexError else Inr ())"
proof -
  let ?N = "nat (loan_term l + 1)"
  from calc_scheduled_facts [OF sch] obtain cnt sb sp si where
    t: "0 \<le> loan_term l" and
    cnt: "pmt_cnt s = Some cnt" "length cnt = ?N" and
    sb: "scheduled_balance s = Some sb" "length sb = ?N" and
    sp: "scheduled_principal s = Some sp" "length sp = ?N" and
    si: "scheduled_interest s = Some si" "length si = ?N"
    by blast
  from calc_scheduled_Inr [OF sch] obtain ppy where ppy: "FREQ_PERIOD_MAP (amort_freq l) = Some ppy"
    by blast
  from t cnt sb have ne: "cnt \<noteq> []" "sb \<noteq> []" by auto
  have "\<forall>i \<in> set [1..<length cnt]. i - 1 < length dr \<and> i < length si \<and> i - 1 < length sb
            \<and> i < length sp \<and> i < length ps"
    using cnt sb sp si dr ps t by auto
  from adjust_loop_total [OF dr(1) si(1) sb(1) sp(1) ps(1) this]
  obtain w where "adjust_loop s (coupon l / real ppy) [1..<length cnt]
              \<lparr>bal = (zeros (length cnt))[0 := sb ! 0], dflt = zeros (length cnt),
               pre = zeros (length cnt), prin = zeros (length cnt),
               intr = zeros (length cnt)\<rparr> = (None, w)" by blast
  from calc_adjust_unfold [OF cnt(1) ne(1) ppy sb(1) ne(2) this]
  show ?thesis using cnt(2) t by (auto simp: fst_cashflow_totals)
qed

subsection \<open>The recurrence\<close>

text \<open>
  C1. When the schedule of a loan has been computed and the adjustment completes on
  it, the five series have \<open>term + 1\<close> entries, the balance at index 0 is the invested
  amount, and at every period \<open>i\<close> from 1 to \<open>term\<close>: the default is the prior balance
  times the prior period's default rate times the default multiplier; the prepayment
  is the prior balance, less the share \<open>(balance[i-1] - scheduled_interest[i]) /
  scheduled_balance[i-1] * scheduled_principal[i]\<close>, times the current period's prepay
  speed times the prepay multiplier; the principal is the surviving balance times
  \<open>scheduled_principal[i] / scheduled_balance[i-1]\<close> plus the prepayment; the balance is
  the prior balance less principal and default; the interest is the surviving balance
  times the periodic coupon rate.
\<close>

theorem adjustment_recurrence:
  assumes sch: "calc_scheduled_cashflow l s0 = (Inr (), s1)"
    and adj: "calc_default_prepay_adjust_cashflow l s1 = (Inr (), s2)"
  shows "\<exists>ppy B D P R I dr ps si sp sb.
           FREQ_PERIOD_MAP (amort_freq l) = Some ppy
         \<and> balance s2 = Some B \<and> default_amt s2 = Some D \<and> prepay s2 = Some P
         \<and> principle s2 = Some R \<and> interest s2 = Some I
         \<and> default_rate s1 = Some dr \<and> prepay_speed s1 = Some ps
         \<and> scheduled_interest s1 = Some si \<and> scheduled_principal s1 = Some sp
         \<and> scheduled_balance s1 = Some sb
         \<and> length B = nat (loan_term l + 1) \<and> length D = nat (loan_term l + 1)
         \<and> length P = nat (loan_term l + 1) \<and> length R = nat (loan_term l + 1)
         \<and> length I = nat (loan_term l + 1)
         \<and> nat (loan_term l) \<le> length dr \<and> nat (loan_term l + 1) \<le> length ps
         \<and> length si = nat (loan_term l + 1) \<and> length sp = nat (loan_term l + 1)
         \<and> length sb = nat (loan_term l + 1)
         \<and> B ! 0 = invested l
         \<and> (\<forall>i. 1 \<le> i \<and> int i \<le> loan_term l \<longrightarrow>
               D ! i = B ! (i - 1) * dr ! (i - 1) * default_multiplier s1
             \<and> P ! i = (B ! (i - 1) - (B ! (i - 1) - si ! i) / sb ! (i - 1) * sp ! i)
                         * ps ! i * prepay_multiplier s1
             \<and> R ! i = (B ! (i - 1) - D ! i) * sp ! i / sb ! (i - 1) + P ! i
             \<and> B ! i = B ! (i - 1) - R ! i - D ! i
             \<and> I ! i = (B ! (i - 1) - D ! i) * (coupon l / real ppy))"
proof -
  let ?N = "nat (loan_term l + 1)"
  from calc_scheduled_facts [OF sch] obtain cnt0 sb0 sp si where
    t: "0 \<le> loan_term l" and
    cnt0: "pmt_cnt s1 = Some cnt0" "length cnt0 = ?N" and
    sb0: "scheduled_balance s1 = Some sb0" "length sb0 = ?N" "sb0 ! 0 = invested l" and
    sp: "scheduled_principal s1 = Some sp" "length sp = ?N" and
    si: "scheduled_interest s1 = Some si" "length si = ?N"
    by blast
  from calc_adjust_Inr [OF adj] cnt0 sb0 obtain ppy w where
    big: "18 < ?N" and
    ppy: "FREQ_PERIOD_MAP (amort_freq l) = Some ppy" and
    lp: "adjust_loop s1 (coupon l / real ppy) [1..<?N]
              \<lparr>bal = (zeros ?N)[0 := sb0 ! 0], dflt = zeros ?N,
               pre = zeros ?N, prin = zeros ?N, intr = zeros ?N\<rparr> = (None, w)" and
    ct: "cashflow_totals l ?N ppy w (put_series w s1) = (Inr (), s2)"
    by auto
  from big have "?N - 1 \<in> set [1..<?N]" by simp
  from adjust_loop_reads [OF lp this] obtain dr ps where
    dr: "default_rate s1 = Some dr" "?N - 1 - 1 < length dr" and
    ps: "prepay_speed s1 = Some ps" "?N - 1 < length ps"
    by blast
  let ?w0 = "\<lparr>bal = (zeros ?N)[0 := sb0 ! 0], dflt = zeros ?N,
               pre = zeros ?N, prin = zeros ?N, intr = zeros ?N\<rparr>"
  have len0: "length (bal ?w0) = ?N" "length (dflt ?w0) = ?N" "length (pre ?w0) = ?N"
    "length (prin ?w0) = ?N" "length (intr ?w0) = ?N" "?N \<le> ?N"
    by simp_all
  note rows = adjust_loop_rows [OF lp len0 dr(1) si(1) sb0(1) sp(1) ps(1)]
  from cashflow_totals_Inr(2) [OF ct] have
    s2: "balance s2 = Some (bal w)" "default_amt s2 = Some (dflt w)" "prepay s2 = Some (pre w)"
      "principle s2 = Some (prin w)" "interest s2 = Some (intr w)"
    by (simp_all add: Let_def)
  have b0: "bal w ! 0 = invested l"
    using rows big sb0(3) by simp
  have lens: "length (bal w) = ?N" "length (dflt w) = ?N" "length (pre w) = ?N"
    "length (prin w) = ?N" "length (intr w) = ?N"
    using rows by simp_all
  have eqs: "\<forall>i. 1 \<le> i \<and> int i \<le> loan_term l \<longrightarrow>
               dflt w ! i = bal w ! (i - 1) * dr ! (i - 1) * default_multiplier s1
             \<and> pre w ! i = (bal w ! (i - 1) - (bal w ! (i - 1) - si ! i) / sb0 ! (i - 1) * sp ! i)
                         * ps ! i * prepay_multiplier s1
             \<and> prin w ! i = (bal w ! (i - 1) - dflt w ! i) * sp ! i / sb0 ! (i - 1) + pre w ! i
             \<and> bal w ! i = bal w ! (i - 1) - prin w ! i - dflt w ! i
             \<and> intr w ! i = (bal w ! (i - 1) - dflt w ! i) * (coupon l / real ppy)"
  proof (intro allI impI)
    fix i assume "1 \<le> i \<and> int i \<le> loan_term l"
    then have "1 \<le> i \<and> i < ?N" by auto
    with rows show "dflt w ! i = bal w ! (i - 1) * dr ! (i - 1) * default_multiplier s1
             \<and> pre w ! i = (bal w ! (i - 1) - (bal w ! (i - 1) - si ! i) / sb0 ! (i - 1) * sp ! i)
                         * ps ! i * prepay_multiplier s1
             \<and> prin w ! i = (bal w ! (i - 1) - dflt w ! i) * sp ! i / sb0 ! (i - 1) + pre w ! i
             \<and> bal w ! i = bal w ! (i - 1) - prin w ! i - dflt w ! i
             \<and> intr w ! i = (bal w ! (i - 1) - dflt w ! i) * (coupon l / real ppy)"
      by blast
  qed
  have bounds: "nat (loan_term l) \<le> length dr" "?N \<le> length ps"
    using dr(2) ps(2) t by auto
  from ppy s2 dr(1) ps(1) si sp sb0 lens bounds b0 eqs show ?thesis by blast
qed


text \<open>The loan \<open>L0\<close> on the object \<open>S0\<close>: both steps complete.\<close>

lemma L0_schedule: "fst (calc_scheduled_cashflow L0 S0) = Inr ()"
  by (rule calc_scheduled_succeeds [of _ 12]) (simp_all add: L0_def Loan_def FREQ_PERIOD_MAP_def)

lemma L0_schedule_eq:
  "calc_scheduled_cashflow L0 S0 = (Inr (), snd (calc_scheduled_cashflow L0 S0))"
  using L0_schedule by (metis prod.collapse)

lemma L0_inputs:
  "default_rate (snd (calc_scheduled_cashflow L0 S0)) = Some (replicate 20 (1 / 100))"
  "prepay_speed (snd (calc_scheduled_cashflow L0 S0)) = Some (0 # replicate 18 (1 / 50))"
  "default_multiplier (snd (calc_scheduled_cashflow L0 S0)) = 1"
  "prepay_multiplier (snd (calc_scheduled_cashflow L0 S0)) = 1"
  using calc_scheduled_facts(6-9) [OF L0_schedule_eq]
  by (simp_all add: S0_def Amortization_def)

lemma L0_adjust:
  "fst (calc_default_prepay_adjust_cashflow L0 (snd (calc_scheduled_cashflow L0 S0))) = Inr ()"
  using calc_adjust_after_schedule [OF L0_schedule_eq L0_inputs(1) _ L0_inputs(2)]
  by (simp add: L0_def Loan_def)

lemma L0_adjust_eq:
  "calc_default_prepay_adjust_cashflow L0 (snd (calc_scheduled_cashflow L0 S0))
     = (Inr (), snd (calc_default_prepay_adjust_cashflow L0 (snd (calc_scheduled_cashflow L0 S0))))"
  using L0_adjust by (metis prod.collapse)

text \<open>
  For \<open>L0\<close>: the balance starts at 1000 and the first default is
  \<open>1000 * 0.01 * 1 = 10\<close>.
\<close>

theorem adjustment_recurrence_witness:
  "calc_scheduled_cashflow L0 S0 = (Inr (), snd (calc_scheduled_cashflow L0 S0))
   \<and> calc_default_prepay_adjust_cashflow L0 (snd (calc_scheduled_cashflow L0 S0))
       = (Inr (), snd (calc_default_prepay_adjust_cashflow L0 (snd (calc_scheduled_cashflow L0 S0))))
   \<and> (\<exists>B D. balance (snd (calc_default_prepay_adjust_cashflow L0
                 (snd (calc_scheduled_cashflow L0 S0)))) = Some B
          \<and> default_amt (snd (calc_default_prepay_adjust_cashflow L0
                 (snd (calc_scheduled_cashflow L0 S0)))) = Some D
          \<and> B ! 0 = 1000 \<and> D ! 1 = 10)"
proof -
  from adjustment_recurrence [OF L0_schedule_eq L0_adjust_eq] obtain B D dr where
    h: "balance (snd (calc_default_prepay_adjust_cashflow L0
                 (snd (calc_scheduled_cashflow L0 S0)))) = Some B"
       "default_amt (snd (calc_default_prepay_adjust_cashflow L0
                 (snd (calc_scheduled_cashflow L0 S0)))) = Some D"
       "default_rate (snd (calc_scheduled_cashflow L0 S0)) = Some dr"
       "B ! 0 = invested L0"
       "\<forall>i. 1 \<le> i \<and> int i \<le> loan_term L0 \<longrightarrow>
          D ! i = B ! (i - 1) * dr ! (i - 1) * default_multiplier (snd (calc_scheduled_cashflow L0 S0))"
    by blast
  from h(3) L0_inputs(1) have dr: "dr = replicate 20 (1 / 100)" by simp
  from h(5) have "D ! 1 = B ! 0 * dr ! 0 * default_multiplier (snd (calc_scheduled_cashflow L0 S0))"
    by (simp add: L0_def Loan_def)
  with h(4) dr L0_inputs(3) have "B ! 0 = 1000 \<and> D ! 1 = 10"
    by (simp add: L0_def Loan_def)
  with h(1,2) L0_schedule_eq L0_adjust_eq show ?thesis by blast
qed

subsection \<open>Total cash flow\<close>

text \<open>
  C2. When the adjustment completes, the total cash flow at index 0 is
  \<open>- invested * (1 + premium)\<close>, and at every later period \<open>i\<close> it is principal plus
  interest plus recovery less servicing less earnout, where the recovery is the default
  times the recovery rate and the servicing cash flow is \<open>(balance[i-1] - default[i])\<close>
  times the servicing fee over the periods per year; the servicing cash flow at index 0
  is 0.
\<close>

theorem total_cash_flow:
  assumes adj: "calc_default_prepay_adjust_cashflow l s = (Inr (), s')"
  shows "\<exists>cnt ppy T R I D B rc sv eo.
           pmt_cnt s = Some cnt \<and> FREQ_PERIOD_MAP (amort_freq l) = Some ppy
         \<and> total_cf s' = Some T \<and> principle s' = Some R \<and> interest s' = Some I
         \<and> default_amt s' = Some D \<and> balance s' = Some B \<and> recovery s' = Some rc
         \<and> servicing_cf s' = Some sv \<and> earout_cf s' = Some eo
         \<and> length T = length cnt \<and> length R = length cnt \<and> length I = length cnt
         \<and> length D = length cnt \<and> length B = length cnt \<and> length rc = length cnt
         \<and> length sv = length cnt \<and> length eo = length cnt \<and> 0 < length cnt
         \<and> T ! 0 = - invested l * (1 + premium l)
         \<and> sv ! 0 = 0
         \<and> (\<forall>i. 1 \<le> i \<and> i < length cnt \<longrightarrow>
               T ! i = R ! i + I ! i + rc ! i - sv ! i - eo ! i
             \<and> rc ! i = D ! i * recovery_rate l
             \<and> sv ! i = (B ! (i - 1) - D ! i) * servicing_fee l / real ppy)"
proof -
  from calc_adjust_Inr [OF adj] obtain cnt ppy sb w where
    cnt: "pmt_cnt s = Some cnt" and big: "18 < length cnt" and
    ppy: "FREQ_PERIOD_MAP (amort_freq l) = Some ppy" and
    lp: "adjust_loop s (coupon l / real ppy) [1..<length cnt]
              \<lparr>bal = (zeros (length cnt))[0 := sb ! 0], dflt = zeros (length cnt),
               pre = zeros (length cnt), prin = zeros (length cnt),
               intr = zeros (length cnt)\<rparr> = (None, w)" and
    ct: "cashflow_totals l (length cnt) ppy w (put_series w s) = (Inr (), s')"
    by blast
  let ?N = "length cnt"
  from adjust_loop_lengths [OF lp] have
    lens: "length (bal w) = ?N" "length (dflt w) = ?N" "length (pre w) = ?N"
      "length (prin w) = ?N" "length (intr w) = ?N"
    by simp_all
  define rc where "rc = map (\<lambda>d. d * recovery_rate l) (dflt w)"
  define sv where "sv = take 1 (zeros ?N) @
                          map (\<lambda>i. (bal w ! i - dflt w ! (i + 1)) * servicing_fee l / real ppy)
                            [0..<?N - 1]"
  define eo where "eo = (zeros ?N)[12 := earnout_fee l / 2 * invested l,
                                     18 := earnout_fee l / 2 * invested l]"
  define tot where "tot = map (\<lambda>i. prin w ! i + intr w ! i + rc ! i - sv ! i - eo ! i) [0..<?N]"
  from cashflow_totals_Inr(2) [OF ct] have
    s': "s' = (put_series w s)\<lparr>recovery := Some rc, servicing_cf := Some sv, earout_cf := Some eo,
                    total_cf := Some (tot[0 := - invested l * (1 + premium l)])\<rparr>"
    by (simp add: Let_def rc_def sv_def eo_def tot_def)
  have f: "total_cf s' = Some (tot[0 := - invested l * (1 + premium l)])"
    "principle s' = Some (prin w)" "interest s' = Some (intr w)"
    "default_amt s' = Some (dflt w)" "balance s' = Some (bal w)" "recovery s' = Some rc"
    "servicing_cf s' = Some sv" "earout_cf s' = Some eo"
    by (simp_all add: s')
  have tk: "take (Suc 0) (zeros ?N) = [0]"
    using big by (cases ?N) (simp_all add: zeros_def)
  have l2: "length (tot[0 := - invested l * (1 + premium l)]) = ?N" "length rc = ?N"
    "length sv = ?N" "length eo = ?N" "0 < ?N"
    using big lens by (auto simp: tot_def rc_def sv_def eo_def tk)
  have pos: "0 < ?N" using big by linarith
  have lt: "0 < length tot" using pos by (simp add: tot_def)
  have t0: "tot[0 := - invested l * (1 + premium l)] ! 0 = - invested l * (1 + premium l)"
    using lt by (rule nth_list_update_eq)
  have sv0: "sv ! 0 = 0" by (simp add: sv_def tk)
  have rows: "\<forall>i. 1 \<le> i \<and> i < ?N \<longrightarrow>
               tot[0 := - invested l * (1 + premium l)] ! i
                 = prin w ! i + intr w ! i + rc ! i - sv ! i - eo ! i
             \<and> rc ! i = dflt w ! i * recovery_rate l
             \<and> sv ! i = (bal w ! (i - 1) - dflt w ! i) * servicing_fee l / real ppy"
  proof (intro allI impI)
    fix i assume i: "1 \<le> i \<and> i < ?N"
    then obtain k where k: "i = Suc k" "k < ?N - 1" by (cases i) auto
    have "tot[0 := - invested l * (1 + premium l)] ! i
                 = prin w ! i + intr w ! i + rc ! i - sv ! i - eo ! i"
      using i by (simp add: tot_def)
    moreover have "rc ! i = dflt w ! i * recovery_rate l"
      using i lens by (simp add: rc_def)
    moreover have "sv ! i = (bal w ! (i - 1) - dflt w ! i) * servicing_fee l / real ppy"
      using k by (simp add: sv_def tk)
    ultimately show "tot[0 := - invested l * (1 + premium l)] ! i
                 = prin w ! i + intr w ! i + rc ! i - sv ! i - eo ! i
             \<and> rc ! i = dflt w ! i * recovery_rate l
             \<and> sv ! i = (bal w ! (i - 1) - dflt w ! i) * servicing_fee l / real ppy"
      by blast
  qed
  from cnt ppy f lens l2 t0 sv0 rows show ?thesis by blast
qed

text \<open>For \<open>L0\<close> the outflow at index 0 is \<open>- 1000 * 1.05\<close>.\<close>

theorem total_cash_flow_witness:
  "calc_default_prepay_adjust_cashflow L0 (snd (calc_scheduled_cashflow L0 S0))
       = (Inr (), snd (calc_default_prepay_adjust_cashflow L0 (snd (calc_scheduled_cashflow L0 S0))))
   \<and> (\<exists>T. total_cf (snd (calc_default_prepay_adjust_cashflow L0
                 (snd (calc_scheduled_cashflow L0 S0)))) = Some T
          \<and> T ! 0 = - 1050)"
proof -
  from total_cash_flow [OF L0_adjust_eq] obtain T where
    "total_cf (snd (calc_default_prepay_adjust_cashflow L0
                 (snd (calc_scheduled_cashflow L0 S0)))) = Some T"
    "T ! 0 = - invested L0 * (1 + premium L0)"
    by blast
  then show ?thesis using L0_adjust_eq by (simp add: L0_def Loan_def)
qed

subsection \<open>Earnout\<close>

lemma calc_adjust_short:
  assumes "pmt_cnt s = Some cnt" "length cnt < 19"
  shows "\<exists>e. fst (calc_default_prepay_adjust_cashflow l s) = Inl e"
proof (cases "fst (calc_default_prepay_adjust_cashflow l s)")
  case (Inl e)
  then show ?thesis by blast
next
  case (Inr u)
  then have "calc_default_prepay_adjust_cashflow l s
               = (Inr (), snd (calc_default_prepay_adjust_cashflow l s))"
    by (metis prod.collapse old.unit.exhaust)
  from calc_adjust_Inr [OF this] assms show ?thesis by auto
qed

text \<open>
  C5, as the code has it. When the adjustment completes, the series has at least 19
  entries and the earnout series is zero everywhere except at indices 12 and 18, which
  hold \<open>earnout_fee / 2 * invested\<close>. A series of fewer than 19 entries, that is a term
  below 18, makes the adjustment fail. After the schedule of the loan, with a default
  rate for each of the first \<open>term\<close> indices and a prepay speed for each of the first
  \<open>term + 1\<close>, the adjustment raises \<open>IndexError\<close> when the term is below 18 and
  completes when the term is 18 or more: the series of a loan of 18 periods has the
  indices 0 to 18.
\<close>

theorem earnout_periods:
  "(calc_default_prepay_adjust_cashflow l s = (Inr (), s') \<longrightarrow>
      (\<exists>cnt eo. pmt_cnt s = Some cnt \<and> 19 \<le> length cnt
         \<and> earout_cf s' = Some eo \<and> length eo = length cnt
         \<and> (\<forall>i. i < length cnt \<longrightarrow>
               eo ! i = (if i = 12 \<or> i = 18 then earnout_fee l / 2 * invested l else 0))))
   \<and> (\<forall>cnt. pmt_cnt s = Some cnt \<and> length cnt < 19 \<longrightarrow>
         (\<exists>e. fst (calc_default_prepay_adjust_cashflow l s) = Inl e))
   \<and> (\<forall>s0 dr ps.
         calc_scheduled_cashflow l s0 = (Inr (), s)
         \<and> default_rate s = Some dr \<and> nat (loan_term l) \<le> length dr
         \<and> prepay_speed s = Some ps \<and> nat (loan_term l + 1) \<le> length ps \<longrightarrow>
           (loan_term l < 18 \<longrightarrow>
              fst (calc_default_prepay_adjust_cashflow l s) = Inl IndexError)
         \<and> (18 \<le> loan_term l \<longrightarrow>
              fst (calc_default_prepay_adjust_cashflow l s) = Inr ()))"
proof (intro conjI impI allI)
  assume adj: "calc_default_prepay_adjust_cashflow l s = (Inr (), s')"
  from calc_adjust_Inr [OF adj] obtain cnt ppy sb w where
    cnt: "pmt_cnt s = Some cnt" and big: "18 < length cnt" and
    ct: "cashflow_totals l (length cnt) ppy w (put_series w s) = (Inr (), s')"
    by blast
  let ?eo = "(zeros (length cnt))[12 := earnout_fee l / 2 * invested l,
                                   18 := earnout_fee l / 2 * invested l]"
  from cashflow_totals_Inr(2) [OF ct] have eo: "earout_cf s' = Some ?eo"
    by (simp add: Let_def)
  have "\<forall>i. i < length cnt \<longrightarrow>
          ?eo ! i = (if i = 12 \<or> i = 18 then earnout_fee l / 2 * invested l else 0)"
    using big by (auto simp: nth_list_update)
  with cnt big eo show "\<exists>cnt eo. pmt_cnt s = Some cnt \<and> 19 \<le> length cnt
         \<and> earout_cf s' = Some eo \<and> length eo = length cnt
         \<and> (\<forall>i. i < length cnt \<longrightarrow>
               eo ! i = (if i = 12 \<or> i = 18 then earnout_fee l / 2 * invested l else 0))"
    by (intro exI [of _ cnt] exI [of _ ?eo]) simp
next
  fix cnt assume "pmt_cnt s = Some cnt \<and> length cnt < 19"
  then show "\<exists>e. fst (calc_default_prepay_adjust_cashflow l s) = Inl e"
    using calc_adjust_short by blast
next
  fix s0 dr ps
  assume h: "calc_scheduled_cashflow l s0 = (Inr (), s)
         \<and> default_rate s = Some dr \<and> nat (loan_term l) \<le> length dr
         \<and> prepay_speed s = Some ps \<and> nat (loan_term l + 1) \<le> length ps"
  then have r: "fst (calc_default_prepay_adjust_cashflow l s)
           = (if loan_term l < 18 then Inl IndexError else Inr ())"
    using calc_adjust_after_schedule by blast
  { assume "loan_term l < 18"
    with r show "fst (calc_default_prepay_adjust_cashflow l s) = Inl IndexError" by simp }
  { assume "18 \<le> loan_term l"
    with r show "fst (calc_default_prepay_adjust_cashflow l s) = Inr ()" by simp }
qed

lemma L17_schedule_eq:
  "calc_scheduled_cashflow L17 S0 = (Inr (), snd (calc_scheduled_cashflow L17 S0))"
proof -
  have "fst (calc_scheduled_cashflow L17 S0) = Inr ()"
    by (rule calc_scheduled_succeeds [of _ 12])
       (simp_all add: L17_def L0_def Loan_def FREQ_PERIOD_MAP_def)
  then show ?thesis by (metis prod.collapse)
qed

lemma L17_inputs:
  "default_rate (snd (calc_scheduled_cashflow L17 S0)) = Some (replicate 20 (1 / 100))"
  "prepay_speed (snd (calc_scheduled_cashflow L17 S0)) = Some (0 # replicate 18 (1 / 50))"
  using calc_scheduled_facts(6-7) [OF L17_schedule_eq]
  by (simp_all add: S0_def Amortization_def)

text \<open>For \<open>L0\<close>, of 18 periods, and for \<open>L17\<close>, of 17.\<close>

theorem earnout_periods_witness:
  "calc_default_prepay_adjust_cashflow L0 (snd (calc_scheduled_cashflow L0 S0))
       = (Inr (), snd (calc_default_prepay_adjust_cashflow L0 (snd (calc_scheduled_cashflow L0 S0))))
   \<and> (\<exists>eo. earout_cf (snd (calc_default_prepay_adjust_cashflow L0
                 (snd (calc_scheduled_cashflow L0 S0)))) = Some eo
          \<and> eo ! 11 = 0 \<and> eo ! 12 = 25 / 2 \<and> eo ! 18 = 25 / 2)
   \<and> calc_scheduled_cashflow L17 S0 = (Inr (), snd (calc_scheduled_cashflow L17 S0))
   \<and> loan_term L17 < 18
   \<and> fst (calc_default_prepay_adjust_cashflow L17 (snd (calc_scheduled_cashflow L17 S0)))
       = Inl IndexError
   \<and> 18 \<le> loan_term L0
   \<and> fst (calc_default_prepay_adjust_cashflow L0 (snd (calc_scheduled_cashflow L0 S0))) = Inr ()"
proof -
  note A = earnout_periods [of L0 "snd (calc_scheduled_cashflow L0 S0)"
      "snd (calc_default_prepay_adjust_cashflow L0 (snd (calc_scheduled_cashflow L0 S0)))"]
  note B = earnout_periods [of L17 "snd (calc_scheduled_cashflow L17 S0)"]
  from A [THEN conjunct1, rule_format, OF L0_adjust_eq] obtain cnt :: "int list" and eo where
    e: "19 \<le> length cnt" "earout_cf (snd (calc_default_prepay_adjust_cashflow L0
                 (snd (calc_scheduled_cashflow L0 S0)))) = Some eo"
       "\<forall>i. i < length cnt \<longrightarrow>
               eo ! i = (if i = 12 \<or> i = 18 then earnout_fee L0 / 2 * invested L0 else 0)"
    by blast
  from e(1) have "(11::nat) < length cnt" "(12::nat) < length cnt" "(18::nat) < length cnt"
    by simp_all
  with e(3) have v: "eo ! 11 = 0 \<and> eo ! 12 = 25 / 2 \<and> eo ! 18 = 25 / 2"
    by (simp add: L0_def Loan_def)
  have t17: "loan_term L17 < 18" by (simp add: L17_def)
  have t0: "18 \<le> loan_term L0" by (simp add: L0_def Loan_def)
  from B [THEN conjunct2, THEN conjunct2, rule_format, of S0 "replicate 20 (1 / 100)"
      "0 # replicate 18 (1 / 50)"] L17_schedule_eq L17_inputs t17
  have f17: "fst (calc_default_prepay_adjust_cashflow L17 (snd (calc_scheduled_cashflow L17 S0)))
       = Inl IndexError"
    by (simp add: L17_def)
  from A [THEN conjunct2, THEN conjunct2, rule_format, of S0 "replicate 20 (1 / 100)"
      "0 # replicate 18 (1 / 50)"] L0_schedule_eq L0_inputs t0
  have f0: "fst (calc_default_prepay_adjust_cashflow L0 (snd (calc_scheduled_cashflow L0 S0))) = Inr ()"
    by (simp add: L0_def Loan_def)
  from L0_adjust_eq e(2) v L17_schedule_eq t17 f17 t0 f0 show ?thesis by blast
qed

text \<open>
  C5 as stated fails at a term of 18: it is shorter than 19 periods, and the stores at
  indices 12 and 18 succeed.
\<close>

theorem earnout_term_18_accepted:
  "loan_term L0 < 19
   \<and> fst (calc_scheduled_cashflow L0 S0) = Inr ()
   \<and> fst (calc_default_prepay_adjust_cashflow L0 (snd (calc_scheduled_cashflow L0 S0))) = Inr ()"
  using L0_schedule L0_adjust by (simp add: L0_def Loan_def)

subsection \<open>The scheduled balance\<close>

lemma balance_loop_append:
  "balance_loop sp (xs @ ys) sb = balance_loop sp ys (balance_loop sp xs sb)"
  by (induction xs arbitrary: sb) simp_all

lemma balance_loop_step:
  assumes "m \<le> length sb" "1 \<le> k" "k < m"
  shows "balance_loop sp [1..<m] sb ! k = balance_loop sp [1..<m] sb ! (k - 1) - sp ! k"
  using assms
proof (induction m arbitrary: k)
  case 0
  then show ?case by simp
next
  case (Suc m)
  show ?case
  proof (cases "m = 0")
    case True
    with Suc.prems show ?thesis by simp
  next
    case False
    then have m1: "1 \<le> m" by simp
    let ?B = "balance_loop sp [1..<m] sb"
    have e: "balance_loop sp [1..<Suc m] sb = ?B[m := ?B ! (m - 1) - sp ! m]"
      unfolding upt_1_Suc [OF m1] balance_loop_append by simp
    from Suc.prems have lm: "m < length ?B" by simp
    show ?thesis
    proof (cases "k = m")
      case True
      show ?thesis unfolding e using lm m1 True by simp
    next
      case False
      with Suc.prems have km: "k < m" by simp
      then have "k \<noteq> m" "k - 1 \<noteq> m" by auto
      moreover from Suc.prems have "m \<le> length sb" by simp
      ultimately show ?thesis unfolding e using Suc.IH [of k] Suc.prems(2) km by simp
    qed
  qed
qed

text \<open>
  At a periodic rate of \<open>- 1\<close> the level payment is 0 and the first payment repays the
  whole principal: the interest of period 1 is \<open>- P\<close>, and nothing is left to repay
  afterwards.
\<close>

lemma ppmt_rate_minus_1:
  assumes "0 < n" "1 \<le> per"
  shows "ppmt (- 1) per n (- P) = (if per = 1 then P else 0)"
proof -
  from assms(1) have p: "pmt (- 1) n (- P) = 0"
    by (simp add: pmt_def Let_def power_0_left)
  have "fv (- 1) (per - 1) 0 (- P) = P * 0 ^ (per - 1)"
    by (simp add: fv_def Let_def)
  also have "\<dots> = (if per = 1 then P else 0)"
    using assms(2) by (cases "per = 1") auto
  finally have "ipmt (- 1) per n (- P) = (if per = 1 then - P else 0)"
    by (simp add: ipmt_def p)
  with p show ?thesis by (simp add: ppmt_def)
qed

lemma scheduled_balance_rate_minus_1:
  fixes P :: real
  assumes sp: "\<And>j. 1 \<le> j \<Longrightarrow> j \<le> n \<Longrightarrow> sp ! j = ppmt (- 1) j n (- P)"
    and sb: "length sb = Suc n" "sb ! 0 = P"
    and k: "1 \<le> k" "k \<le> n"
  shows "balance_loop sp [1..<Suc n] sb ! k = 0"
proof -
  define B where "B = balance_loop sp [1..<Suc n] sb"
  have z: "0 \<notin> set [1..<Suc n]" by simp
  have b0: "B ! 0 = P" unfolding B_def balance_loop_frame [OF z] by (rule sb(2))
  have step: "B ! Suc j = B ! j - ppmt (- 1) (Suc j) n (- P)" if "Suc j \<le> n" for j
  proof -
    from that sb(1) have "Suc n \<le> length sb" "1 \<le> Suc j" "Suc j < Suc n" by simp_all
    from balance_loop_step [OF this, of sp] have "B ! Suc j = B ! (Suc j - 1) - sp ! Suc j"
      unfolding B_def .
    with sp [of "Suc j"] that show ?thesis by simp
  qed
  have all: "B ! Suc j = 0" if "Suc j \<le> n" for j
    using that
  proof (induction j)
    case 0
    then have n: "0 < n" by simp
    from step [OF 0] b0 ppmt_rate_minus_1 [OF n, of 1 P] show ?case by simp
  next
    case (Suc j)
    then have IH: "B ! Suc j = 0" and n: "0 < n" by simp_all
    from step [OF Suc.prems] IH ppmt_rate_minus_1 [OF n, of "Suc (Suc j)" P]
    show ?case by simp
  qed
  from k obtain j where "k = Suc j" by (cases k) auto
  with all [of j] k show ?thesis by (simp add: B_def)
qed




subsection \<open>The orchestration\<close>

lemma bounded_range_Inr:
  "bounded_range first raw = Inr ds \<longleftrightarrow>
     ds = raw \<and> within_timestamp_max first \<and> (\<forall>t \<in> set raw. within_timestamp_max t)"
  by (auto simp: bounded_range_def list_all_iff)

lemma date_range_length: "date_range start n freq = Inr ds \<Longrightarrow> length ds = n"
  by (auto simp: date_range_def bounded_range_Inr split: if_splits)

lemma month_end_after_facts:
  "year (month_end_after n d) * 12 + int (month (month_end_after n d))
     = year d * 12 + int (month d) + n"
  "1 \<le> month (month_end_after n d)" "month (month_end_after n d) \<le> 12"
  "day (month_end_after n d)
     = days_in_month (year (month_end_after n d)) (month (month_end_after n d))"
proof -
  define t where "t = year d * 12 + int (month d) - 1 + n"
  have m: "0 \<le> t mod 12" "t mod 12 < 12" by simp_all
  have e: "month_end_after n d
             = \<lparr>year = t div 12, month = nat (t mod 12) + 1,
                day = days_in_month (t div 12) (nat (t mod 12) + 1)\<rparr>"
    by (simp add: month_end_after_def Let_def t_def)
  have "t div 12 * 12 + t mod 12 = t" by simp
  then show "year (month_end_after n d) * 12 + int (month (month_end_after n d))
     = year d * 12 + int (month d) + n"
    using m by (simp add: e t_def)
  show "1 \<le> month (month_end_after n d)" by (simp add: e)
  show "month (month_end_after n d) \<le> 12" using m by (simp add: e)
  show "day (month_end_after n d)
     = days_in_month (year (month_end_after n d)) (month (month_end_after n d))"
    by (simp add: e)
qed

lemma month_end_after_year:
  assumes "0 \<le> n" "month d \<le> 12"
  shows "year (month_end_after n d) \<le> year d + n"
  using month_end_after_facts(1,2) [of n d] assms by linarith

text \<open>A monthly range that ends before the year 2262 is within the bound.\<close>

lemma date_range_M_ok:
  assumes m: "month d \<le> 12" and y: "year d + int n < 2262"
  shows "date_range d n ''M'' = Inr (map (\<lambda>k. month_end_after (int k) d) [0..<n])"
proof -
  have w: "within_timestamp_max (month_end_after (int k) d)" if "k \<le> n" for k
    using month_end_after_year [OF _ m, of "int k"] that y
    by (simp add: within_timestamp_max_def)
  from w [of 0] have "within_timestamp_max (month_end_after 0 d)" by simp
  moreover have "\<forall>t \<in> set (map (\<lambda>k. month_end_after (int k) d) [0..<n]).
                   within_timestamp_max t"
    using w by auto
  ultimately show ?thesis by (simp add: date_range_def bounded_range_Inr)
qed

lemma replace_days_Inr:
  "replace_days k ds = Inr ds' \<Longrightarrow>
     ds' = map (\<lambda>t. t\<lparr>day := k\<rparr>) ds
     \<and> (\<forall>t \<in> set ds. 1 \<le> k \<and> k \<le> days_in_month (year t) (month t))"
  by (induction ds arbitrary: ds')
     (auto simp: replace_day_def split: sum.splits if_splits)

lemma replace_days_Inl:
  "replace_days k ds = Inl e \<Longrightarrow>
     e = ValueError ''day is out of range for month''
     \<and> (\<exists>t \<in> set ds. \<not> (1 \<le> k \<and> k \<le> days_in_month (year t) (month t)))"
  by (induction ds) (auto simp: replace_day_def split: sum.splits if_splits)

lemma payment_date_Inr:
  assumes "payment_date start periods freq s = (Inr (), s')"
  shows "\<exists>ds. s' = s\<lparr>pmt_date := Some ds\<rparr> \<and> length ds = nat (periods + 1) \<and> 0 \<le> periods"
proof -
  from assms obtain raw where raw: "date_range start (nat (periods + 1)) freq = Inr raw"
    by (auto simp: payment_date_def Let_def split: sum.splits)
  from date_range_length [OF raw] have l: "length raw = nat (periods + 1)" .
  from assms raw have ne: "raw \<noteq> []"
    by (auto simp: payment_date_def Let_def split: list.splits)
  with l have p: "0 \<le> periods" by (cases "0 \<le> periods") auto
  from assms raw ne obtain ds where "s' = s\<lparr>pmt_date := Some ds\<rparr>" "length ds = length raw"
    by (auto simp: payment_date_def Let_def split: list.splits if_splits sum.splits
          dest!: replace_days_Inr)
  with l p show ?thesis by auto
qed

lemma assign_tail_zeros:
  "assign_tail (zeros n) v = Inr a \<Longrightarrow> length a = n \<and> (0 < n \<longrightarrow> a ! 0 = 0)"
  by (cases n) (auto simp: assign_tail_def zeros_def Let_def split: if_splits)

lemma fetch_prepay_speed_Inr:
  assumes "fetch_prepay_speed T nper s = (Inr (), s')"
  shows "\<exists>a. s' = s\<lparr>prepay_speed := Some a\<rparr> \<and> length a = nat (nper + 1)
             \<and> (0 \<le> nper \<longrightarrow> a ! 0 = 0)"
proof -
  from assms obtain col where col: "map_of (PREPAY T) nper = Some col"
    by (auto simp: fetch_prepay_speed_def split: option.splits)
  from assms col obtain a where
    a: "assign_tail (zeros (nat (nper + 1))) (dropna col) = Inr a" and
    s': "s' = s\<lparr>prepay_speed := Some a\<rparr>"
    by (auto simp: fetch_prepay_speed_def Let_def split: if_splits sum.splits)
  from assign_tail_zeros [OF a] s' show ?thesis by auto
qed

lemma fetch_default_rate_Inr:
  assumes "fetch_default_rate T sel s = (Inr (), s')"
  shows "\<exists>col. s' = s\<lparr>default_rate := Some col\<rparr> \<and> col \<in> snd ` set (CHARGED_OFF T)
           \<and> (\<forall>k. sel = PyStr k \<longrightarrow> map_of (CHARGED_OFF T) k = Some col)"
proof (cases sel)
  case (PyInt c)
  let ?n = "int (length (CHARGED_OFF T))"
  let ?j = "nat (if c < 0 then ?n + c else c)"
  from assms PyInt have c: "c < ?n" "- ?n \<le> c"
    and s': "s' = s\<lparr>default_rate := Some (snd (CHARGED_OFF T ! ?j))\<rparr>"
    by (auto simp: fetch_default_rate_def Let_def split: if_splits)
  from c have "?j < length (CHARGED_OFF T)" by auto
  then have "snd (CHARGED_OFF T ! ?j) \<in> snd ` set (CHARGED_OFF T)"
    by (intro imageI nth_mem)
  with s' PyInt show ?thesis by blast
next
  case (PyStr k)
  from assms PyStr obtain col where col: "map_of (CHARGED_OFF T) k = Some col"
    and s': "s' = s\<lparr>default_rate := Some col\<rparr>"
    by (auto simp: fetch_default_rate_def split: option.splits)
  from map_of_SomeD [OF col] have "col \<in> snd ` set (CHARGED_OFF T)" by force
  with col s' PyStr show ?thesis by auto
next
  case PyNone
  with assms show ?thesis by (simp add: fetch_default_rate_def)
next
  case (PyOther b)
  with assms show ?thesis by (simp add: fetch_default_rate_def)
next
  case (PyBool b)
  with assms show ?thesis by (simp add: fetch_default_rate_def Let_def split: if_splits)
qed

lemma then_do_Inr_iff:
  "then_do r f = (Inr x, s') \<longleftrightarrow> (\<exists>s1. r = (Inr (), s1) \<and> f s1 = (Inr x, s'))"
  by (cases r) (auto simp: then_do_def split: sum.splits)

lemma calc_cashflows_Inr:
  assumes "calc_cashflows T l s = (Inr df, s')"
  shows "\<exists>s1 s2 s3 s4.
           fetch_prepay_speed T (loan_term l) s = (Inr (), s1)
         \<and> fetch_default_rate T (if truthy (charge_off_col_num l) then charge_off_col_num l
                                   else PyStr (charge_off_lookup_key l)) s1 = (Inr (), s2)
         \<and> payment_date (issue_date l) (loan_term l) (amort_freq l) s2 = (Inr (), s3)
         \<and> calc_scheduled_cashflow l s3 = (Inr (), s4)
         \<and> calc_default_prepay_adjust_cashflow l s4 = (Inr (), s')
         \<and> to_dataframe s' = Inr df"
  using assms unfolding calc_cashflows_def then_do_Inr_iff
  by (auto split: if_splits)

text \<open>The object after a completed adjustment.\<close>

lemma calc_adjust_state:
  assumes adj: "calc_default_prepay_adjust_cashflow l s = (Inr (), s')"
  shows "\<exists>cnt sb B D P R I rc sv eo tot.
           pmt_cnt s = Some cnt \<and> 18 < length cnt
         \<and> scheduled_balance s = Some sb \<and> sb \<noteq> []
         \<and> s' = s\<lparr>balance := Some B, default_amt := Some D, prepay := Some P,
                   principle := Some R, interest := Some I, recovery := Some rc,
                   servicing_cf := Some sv, earout_cf := Some eo, total_cf := Some tot\<rparr>
         \<and> length B = length cnt \<and> length D = length cnt \<and> length P = length cnt
         \<and> length R = length cnt \<and> length I = length cnt \<and> length rc = length cnt
         \<and> length sv = length cnt \<and> length eo = length cnt \<and> length tot = length cnt
         \<and> B ! 0 = sb ! 0 \<and> D ! 0 = 0 \<and> P ! 0 = 0 \<and> R ! 0 = 0 \<and> I ! 0 = 0
         \<and> rc ! 0 = 0 \<and> sv ! 0 = 0 \<and> eo ! 0 = 0
         \<and> tot ! 0 = - invested l * (1 + premium l)"
proof -
  from calc_adjust_Inr [OF adj] obtain cnt ppy sb w where
    cnt: "pmt_cnt s = Some cnt" and big: "18 < length cnt" and
    sb: "scheduled_balance s = Some sb" "sb \<noteq> []" and
    lp: "adjust_loop s (coupon l / real ppy) [1..<length cnt]
              \<lparr>bal = (zeros (length cnt))[0 := sb ! 0], dflt = zeros (length cnt),
               pre = zeros (length cnt), prin = zeros (length cnt),
               intr = zeros (length cnt)\<rparr> = (None, w)" and
    ct: "cashflow_totals l (length cnt) ppy w (put_series w s) = (Inr (), s')"
    by blast
  let ?N = "length cnt"
  let ?w0 = "\<lparr>bal = (zeros ?N)[0 := sb ! 0], dflt = zeros ?N,
               pre = zeros ?N, prin = zeros ?N, intr = zeros ?N\<rparr>"
  have pos: "0 < ?N" using big by linarith
  from big have "1 \<in> set [1..<?N]" by simp
  from adjust_loop_reads [OF lp this] obtain dr si sb' sp ps where
    src: "default_rate s = Some dr" "scheduled_interest s = Some si"
      "scheduled_balance s = Some sb'" "scheduled_principal s = Some sp"
      "prepay_speed s = Some ps"
    by blast
  have len0: "length (bal ?w0) = ?N" "length (dflt ?w0) = ?N" "length (pre ?w0) = ?N"
    "length (prin ?w0) = ?N" "length (intr ?w0) = ?N" "?N \<le> ?N"
    by simp_all
  note rows = adjust_loop_rows [OF lp len0 src]
  have lens: "length (bal w) = ?N" "length (dflt w) = ?N" "length (pre w) = ?N"
    "length (prin w) = ?N" "length (intr w) = ?N"
    using rows by simp_all
  have z: "bal w ! 0 = sb ! 0" "dflt w ! 0 = 0" "pre w ! 0 = 0" "prin w ! 0 = 0" "intr w ! 0 = 0"
    using rows pos by simp_all
  define rc where "rc = map (\<lambda>d. d * recovery_rate l) (dflt w)"
  define sv where "sv = take 1 (zeros ?N) @
                          map (\<lambda>i. (bal w ! i - dflt w ! (i + 1)) * servicing_fee l / real ppy)
                            [0..<?N - 1]"
  define eo where "eo = (zeros ?N)[12 := earnout_fee l / 2 * invested l,
                                     18 := earnout_fee l / 2 * invested l]"
  define tot where "tot = (map (\<lambda>i. prin w ! i + intr w ! i + rc ! i - sv ! i - eo ! i) [0..<?N])
                             [0 := - invested l * (1 + premium l)]"
  from cashflow_totals_Inr(2) [OF ct] have
    s': "s' = s\<lparr>balance := Some (bal w), default_amt := Some (dflt w), prepay := Some (pre w),
                   principle := Some (prin w), interest := Some (intr w), recovery := Some rc,
                   servicing_cf := Some sv, earout_cf := Some eo, total_cf := Some tot\<rparr>"
    by (simp add: Let_def rc_def sv_def eo_def tot_def put_series_def)
  have tk: "take (Suc 0) (zeros ?N) = [0]"
    using pos by (cases ?N) (simp_all add: zeros_def)
  have l2: "length rc = ?N" "length sv = ?N" "length eo = ?N" "length tot = ?N"
    using pos lens by (auto simp: tot_def rc_def sv_def eo_def tk)
  have z2: "rc ! 0 = 0" "sv ! 0 = 0" "eo ! 0 = 0" "tot ! 0 = - invested l * (1 + premium l)"
    using pos lens z by (simp_all add: rc_def sv_def eo_def tot_def tk)
  from cnt big sb s' lens l2 z z2 show ?thesis by blast
qed


lemma calc_scheduled_cnt:
  assumes "calc_scheduled_cashflow l s = (Inr (), s')"
  shows "pmt_cnt s' = Some (map int [0..<nat (loan_term l + 1)])"
  using calc_scheduled_Inr [OF assms] by (auto simp: Let_def)

text \<open>The object after the five steps of the orchestration.\<close>

lemma pipeline_state:
  assumes st1: "fetch_prepay_speed T (loan_term l) s = (Inr (), s1)"
    and st2: "fetch_default_rate T sel s1 = (Inr (), s2)"
    and st3: "payment_date (issue_date l) (loan_term l) (amort_freq l) s2 = (Inr (), s3)"
    and st4: "calc_scheduled_cashflow l s3 = (Inr (), s4)"
    and st5: "calc_default_prepay_adjust_cashflow l s4 = (Inr (), s')"
  shows "\<exists>cnt ds sp si sb ps dr rc sv eo B R D P I tot.
           pmt_cnt s' = Some cnt \<and> pmt_date s' = Some ds
         \<and> scheduled_principal s' = Some sp \<and> scheduled_interest s' = Some si
         \<and> scheduled_balance s' = Some sb \<and> prepay_speed s' = Some ps
         \<and> default_rate s' = Some dr \<and> recovery s' = Some rc
         \<and> servicing_cf s' = Some sv \<and> earout_cf s' = Some eo
         \<and> balance s' = Some B \<and> principle s' = Some R \<and> default_amt s' = Some D
         \<and> prepay s' = Some P \<and> interest s' = Some I \<and> total_cf s' = Some tot
         \<and> 18 \<le> loan_term l
         \<and> length cnt = nat (loan_term l + 1) \<and> length ds = nat (loan_term l + 1)
         \<and> length sp = nat (loan_term l + 1) \<and> length si = nat (loan_term l + 1)
         \<and> length sb = nat (loan_term l + 1) \<and> length ps = nat (loan_term l + 1)
         \<and> length rc = nat (loan_term l + 1) \<and> length sv = nat (loan_term l + 1)
         \<and> length eo = nat (loan_term l + 1) \<and> length B = nat (loan_term l + 1)
         \<and> length R = nat (loan_term l + 1) \<and> length D = nat (loan_term l + 1)
         \<and> length P = nat (loan_term l + 1) \<and> length I = nat (loan_term l + 1)
         \<and> length tot = nat (loan_term l + 1)
         \<and> dr \<in> snd ` set (CHARGED_OFF T)
         \<and> cnt ! 0 = 0 \<and> sp ! 0 = 0 \<and> si ! 0 = 0 \<and> sb ! 0 = invested l \<and> ps ! 0 = 0
         \<and> B ! 0 = invested l \<and> R ! 0 = 0 \<and> D ! 0 = 0 \<and> P ! 0 = 0 \<and> I ! 0 = 0
         \<and> rc ! 0 = 0 \<and> sv ! 0 = 0 \<and> eo ! 0 = 0
         \<and> tot ! 0 = - invested l * (1 + premium l)"
proof -
  let ?N = "nat (loan_term l + 1)"
  from fetch_prepay_speed_Inr [OF st1] obtain ps where
    s1: "s1 = s\<lparr>prepay_speed := Some ps\<rparr>" and ps: "length ps = ?N" "0 \<le> loan_term l \<longrightarrow> ps ! 0 = 0"
    by blast
  from fetch_default_rate_Inr [OF st2] obtain dr where
    s2: "s2 = s1\<lparr>default_rate := Some dr\<rparr>" and dr: "dr \<in> snd ` set (CHARGED_OFF T)"
    by blast
  from payment_date_Inr [OF st3] obtain ds where
    s3: "s3 = s2\<lparr>pmt_date := Some ds\<rparr>" and ds: "length ds = ?N"
    by blast
  from calc_scheduled_facts [OF st4] obtain sb sp si where
    t: "0 \<le> loan_term l" and
    sb: "scheduled_balance s4 = Some sb" "length sb = ?N" "sb ! 0 = invested l" and
    sp: "scheduled_principal s4 = Some sp" "length sp = ?N" "sp ! 0 = 0" and
    si: "scheduled_interest s4 = Some si" "length si = ?N" "si ! 0 = 0" and
    fr: "default_rate s4 = default_rate s3" "prepay_speed s4 = prepay_speed s3"
      "pmt_date s4 = pmt_date s3"
    by blast
  define cnt where "cnt = map int [0..<?N]"
  from calc_scheduled_cnt [OF st4] have cnt: "pmt_cnt s4 = Some cnt" by (simp add: cnt_def)
  from t have "0 < ?N" by simp
  then have cnt0: "cnt ! 0 = 0" "length cnt = ?N" by (simp_all add: cnt_def del: upt_Suc)
  from calc_adjust_state [OF st5] obtain cnt' sb' B D P R I rc sv eo tot where
    c': "pmt_cnt s4 = Some cnt'" "scheduled_balance s4 = Some sb'" and
    big': "18 < length cnt'" and
    s': "s' = s4\<lparr>balance := Some B, default_amt := Some D, prepay := Some P,
                   principle := Some R, interest := Some I, recovery := Some rc,
                   servicing_cf := Some sv, earout_cf := Some eo, total_cf := Some tot\<rparr>" and
    lens': "length B = length cnt'" "length D = length cnt'" "length P = length cnt'"
      "length R = length cnt'" "length I = length cnt'" "length rc = length cnt'"
      "length sv = length cnt'" "length eo = length cnt'" "length tot = length cnt'" and
    z': "B ! 0 = sb' ! 0" "D ! 0 = 0" "P ! 0 = 0" "R ! 0 = 0" "I ! 0 = 0"
      "rc ! 0 = 0" "sv ! 0 = 0" "eo ! 0 = 0" "tot ! 0 = - invested l * (1 + premium l)"
    by blast
  from c' cnt sb(1) have same: "cnt' = cnt" "sb' = sb" by simp_all
  note big = big' [unfolded same] and lens = lens' [unfolded same cnt0(2)] and z = z' [unfolded same]
  from big cnt0(2) have t18: "18 \<le> loan_term l" by simp
  have f1: "pmt_cnt s' = Some cnt" "pmt_date s' = Some ds"
    "scheduled_principal s' = Some sp" "scheduled_interest s' = Some si"
    "scheduled_balance s' = Some sb" "prepay_speed s' = Some ps"
    "default_rate s' = Some dr"
    using cnt sb(1) sp(1) si(1) fr by (simp_all add: s' s3 s2 s1)
  have f2: "recovery s' = Some rc" "servicing_cf s' = Some sv" "earout_cf s' = Some eo"
    "balance s' = Some B" "principle s' = Some R" "default_amt s' = Some D"
    "prepay s' = Some P" "interest s' = Some I" "total_cf s' = Some tot"
    by (simp_all add: s')
  from ps(2) t have ps0: "ps ! 0 = 0" by simp
  from z(1) sb(3) have B0: "B ! 0 = invested l" by simp
  show ?thesis
    using f1 f2 t18 cnt0 ds sp(2,3) si(2,3) sb(2,3) ps(1) ps0 lens dr z(2-9) B0
    by blast
qed

lemma to_dataframe_Inr:
  assumes "to_dataframe s = Inr df"
  shows "\<exists>ds dr. pmt_date s = Some ds \<and> default_rate s = Some dr \<and> length ds \<le> length dr
           \<and> map_of df ''Default_Rate'' = Some (RealCol (take (length ds) dr))"
proof -
  from assms obtain ds dr where a: "pmt_date s = Some ds" "default_rate s = Some dr"
    by (auto simp: to_dataframe_def Let_def split: option.splits)
  from assms a have "length (take (length ds) dr) = length ds"
    and "map_of df ''Default_Rate'' = Some (RealCol (take (length ds) dr))"
    by (auto simp: to_dataframe_def Let_def split: if_splits)
  with a show ?thesis by auto
qed


lemma to_dataframe_ok:
  assumes "pmt_date s = Some ds" "default_rate s = Some dr" "length ds \<le> length dr"
    "pmt_cnt s = Some cnt" "length cnt = length ds"
    "scheduled_principal s = Some sp" "length sp = length ds"
    "scheduled_interest s = Some si" "length si = length ds"
    "scheduled_balance s = Some sb" "length sb = length ds"
    "prepay_speed s = Some ps" "length ps = length ds"
    "recovery s = Some rc" "length rc = length ds"
    "servicing_cf s = Some sv" "length sv = length ds"
    "earout_cf s = Some eo" "length eo = length ds"
    "balance s = Some B" "length B = length ds"
    "principle s = Some R" "length R = length ds"
    "default_amt s = Some D" "length D = length ds"
    "prepay s = Some P" "length P = length ds"
    "interest s = Some I" "length I = length ds"
    "total_cf s = Some tot" "length tot = length ds"
  shows "\<exists>df. to_dataframe s = Inr df"
  using assms by (simp add: to_dataframe_def Let_def real_col_def int_col_def del: upt_Suc)


lemma pipeline_default_rate:
  assumes st3: "payment_date (issue_date l) (loan_term l) (amort_freq l) s2 = (Inr (), s3)"
    and st4: "calc_scheduled_cashflow l s3 = (Inr (), s4)"
    and st5: "calc_default_prepay_adjust_cashflow l s4 = (Inr (), s')"
  shows "default_rate s' = default_rate s2"
proof -
  from payment_date_Inr [OF st3] obtain ds where s3: "s3 = s2\<lparr>pmt_date := Some ds\<rparr>" by blast
  from calc_scheduled_facts(6) [OF st4] have "default_rate s4 = default_rate s3" .
  moreover from calc_adjust_state [OF st5] have "default_rate s' = default_rate s4" by auto
  ultimately show ?thesis by (simp add: s3)
qed

text \<open>
  C7, as the code has it. When \<open>calc_cashflows\<close> completes, the term is at least 18 and
  every series of the object has \<open>term + 1\<close> entries, except the default-rate series:
  that series is a whole column of the charge-off table, of at least \<open>term + 1\<close>
  entries, and only the column of the output table is cut to \<open>term + 1\<close>. Index 0 of
  the computed series holds the initial values: the invested amount for the two
  balances, \<open>- invested * (1 + premium)\<close> for the total cash flow, and 0 elsewhere.
\<close>

theorem series_lengths:
  assumes "calc_cashflows T l s = (Inr df, s')"
  shows "\<exists>cnt ds sp si sb ps dr rc sv eo B R D P I tot.
           pmt_cnt s' = Some cnt \<and> pmt_date s' = Some ds
         \<and> scheduled_principal s' = Some sp \<and> scheduled_interest s' = Some si
         \<and> scheduled_balance s' = Some sb \<and> prepay_speed s' = Some ps
         \<and> default_rate s' = Some dr \<and> recovery s' = Some rc
         \<and> servicing_cf s' = Some sv \<and> earout_cf s' = Some eo
         \<and> balance s' = Some B \<and> principle s' = Some R \<and> default_amt s' = Some D
         \<and> prepay s' = Some P \<and> interest s' = Some I \<and> total_cf s' = Some tot
         \<and> 18 \<le> loan_term l
         \<and> length cnt = nat (loan_term l + 1) \<and> length ds = nat (loan_term l + 1)
         \<and> length sp = nat (loan_term l + 1) \<and> length si = nat (loan_term l + 1)
         \<and> length sb = nat (loan_term l + 1) \<and> length ps = nat (loan_term l + 1)
         \<and> length rc = nat (loan_term l + 1) \<and> length sv = nat (loan_term l + 1)
         \<and> length eo = nat (loan_term l + 1) \<and> length B = nat (loan_term l + 1)
         \<and> length R = nat (loan_term l + 1) \<and> length D = nat (loan_term l + 1)
         \<and> length P = nat (loan_term l + 1) \<and> length I = nat (loan_term l + 1)
         \<and> length tot = nat (loan_term l + 1)
         \<and> dr \<in> snd ` set (CHARGED_OFF T)
         \<and> cnt ! 0 = 0 \<and> sp ! 0 = 0 \<and> si ! 0 = 0 \<and> sb ! 0 = invested l \<and> ps ! 0 = 0
         \<and> B ! 0 = invested l \<and> R ! 0 = 0 \<and> D ! 0 = 0 \<and> P ! 0 = 0 \<and> I ! 0 = 0
         \<and> rc ! 0 = 0 \<and> sv ! 0 = 0 \<and> eo ! 0 = 0
         \<and> tot ! 0 = - invested l * (1 + premium l)
         \<and> nat (loan_term l + 1) \<le> length dr
         \<and> map_of df ''Default_Rate'' = Some (RealCol (take (nat (loan_term l + 1)) dr))"
proof -
  from calc_cashflows_Inr [OF assms] obtain s1 s2 s3 s4 where
    st: "fetch_prepay_speed T (loan_term l) s = (Inr (), s1)"
      "fetch_default_rate T (if truthy (charge_off_col_num l) then charge_off_col_num l
                                   else PyStr (charge_off_lookup_key l)) s1 = (Inr (), s2)"
      "payment_date (issue_date l) (loan_term l) (amort_freq l) s2 = (Inr (), s3)"
      "calc_scheduled_cashflow l s3 = (Inr (), s4)"
      "calc_default_prepay_adjust_cashflow l s4 = (Inr (), s')" and
    df: "to_dataframe s' = Inr df"
    by blast
  from pipeline_state [OF st] obtain cnt ds sp si sb ps dr rc sv eo B R D P I tot where
    c: "pmt_cnt s' = Some cnt \<and> pmt_date s' = Some ds
         \<and> scheduled_principal s' = Some sp \<and> scheduled_interest s' = Some si
         \<and> scheduled_balance s' = Some sb \<and> prepay_speed s' = Some ps
         \<and> default_rate s' = Some dr \<and> recovery s' = Some rc
         \<and> servicing_cf s' = Some sv \<and> earout_cf s' = Some eo
         \<and> balance s' = Some B \<and> principle s' = Some R \<and> default_amt s' = Some D
         \<and> prepay s' = Some P \<and> interest s' = Some I \<and> total_cf s' = Some tot
         \<and> 18 \<le> loan_term l
         \<and> length cnt = nat (loan_term l + 1) \<and> length ds = nat (loan_term l + 1)
         \<and> length sp = nat (loan_term l + 1) \<and> length si = nat (loan_term l + 1)
         \<and> length sb = nat (loan_term l + 1) \<and> length ps = nat (loan_term l + 1)
         \<and> length rc = nat (loan_term l + 1) \<and> length sv = nat (loan_term l + 1)
         \<and> length eo = nat (loan_term l + 1) \<and> length B = nat (loan_term l + 1)
         \<and> length R = nat (loan_term l + 1) \<and> length D = nat (loan_term l + 1)
         \<and> length P = nat (loan_term l + 1) \<and> length I = nat (loan_term l + 1)
         \<and> length tot = nat (loan_term l + 1)
         \<and> dr \<in> snd ` set (CHARGED_OFF T)
         \<and> cnt ! 0 = 0 \<and> sp ! 0 = 0 \<and> si ! 0 = 0 \<and> sb ! 0 = invested l \<and> ps ! 0 = 0
         \<and> B ! 0 = invested l \<and> R ! 0 = 0 \<and> D ! 0 = 0 \<and> P ! 0 = 0 \<and> I ! 0 = 0
         \<and> rc ! 0 = 0 \<and> sv ! 0 = 0 \<and> eo ! 0 = 0
         \<and> tot ! 0 = - invested l * (1 + premium l)"
    by blast
  from to_dataframe_Inr [OF df] c have
    "nat (loan_term l + 1) \<le> length dr"
    "map_of df ''Default_Rate'' = Some (RealCol (take (nat (loan_term l + 1)) dr))"
    by auto
  with c show ?thesis by blast
qed

lemma days_in_month_ge_28: "28 \<le> days_in_month y m"
  by (simp add: days_in_month_def)

lemma replace_days_ok:
  "\<forall>t \<in> set ds. 1 \<le> k \<and> k \<le> days_in_month (year t) (month t) \<Longrightarrow>
     replace_days k ds = Inr (map (\<lambda>t. t\<lparr>day := k\<rparr>) ds)"
  by (induction ds) (simp_all add: replace_day_def)

lemma payment_date_small_day:
  assumes "date_range start (nat (periods + 1)) freq = Inr ds" "0 \<le> periods"
    "1 \<le> day start" "day start \<le> 28"
  shows "fst (payment_date start periods freq s) = Inr ()"
proof -
  from date_range_length [OF assms(1)] assms(2) have "ds \<noteq> []" by auto
  then obtain d0 rest where ds: "ds = d0 # rest" by (cases ds) auto
  have "\<forall>t \<in> set ds. 1 \<le> day start \<and> day start \<le> days_in_month (year t) (month t)"
    using assms(3,4) days_in_month_ge_28 le_trans by blast
  from replace_days_ok [OF this] assms(1) ds show ?thesis
    by (simp add: payment_date_def Let_def)
qed

text \<open>Conditions under which the orchestration completes.\<close>

lemma calc_cashflows_completes:
  assumes st1: "fetch_prepay_speed T (loan_term l) s = (Inr (), s1)"
    and st2: "fetch_default_rate T (if truthy (charge_off_col_num l) then charge_off_col_num l
                                   else PyStr (charge_off_lookup_key l)) s1 = (Inr (), s2)"
    and dr: "default_rate s2 = Some dr" "nat (loan_term l + 1) \<le> length dr"
    and st3: "fst (payment_date (issue_date l) (loan_term l) (amort_freq l) s2) = Inr ()"
    and fr: "FREQ_PERIOD_MAP (amort_freq l) = Some ppy"
    and t: "18 \<le> loan_term l"
  shows "\<exists>df s'. calc_cashflows T l s = (Inr df, s') \<and> default_rate s' = Some dr"
proof -
  let ?N = "nat (loan_term l + 1)"
  obtain s3 where s3: "payment_date (issue_date l) (loan_term l) (amort_freq l) s2 = (Inr (), s3)"
    using st3 by (metis prod.collapse)
  from fr t have "fst (calc_scheduled_cashflow l s3) = Inr ()"
    by (intro calc_scheduled_succeeds) simp_all
  then obtain s4 where s4: "calc_scheduled_cashflow l s3 = (Inr (), s4)"
    by (metis prod.collapse)
  from fetch_prepay_speed_Inr [OF st1] obtain ps where
    s1: "s1 = s\<lparr>prepay_speed := Some ps\<rparr>" and ps: "length ps = ?N" by blast
  from fetch_default_rate_Inr [OF st2] obtain col where
    s2: "s2 = s1\<lparr>default_rate := Some col\<rparr>" by blast
  from payment_date_Inr [OF s3] obtain ds where
    s3': "s3 = s2\<lparr>pmt_date := Some ds\<rparr>" by blast
  from calc_scheduled_facts(6,7) [OF s4] dr(1) have
    in4: "default_rate s4 = Some dr" "prepay_speed s4 = Some ps"
    by (simp_all add: s3' s2 s1)
  from dr(2) t have "nat (loan_term l) \<le> length dr" by simp
  from calc_adjust_after_schedule [OF s4 in4(1) this in4(2)] ps t
  have "fst (calc_default_prepay_adjust_cashflow l s4) = Inr ()" by simp
  then obtain s5 where s5: "calc_default_prepay_adjust_cashflow l s4 = (Inr (), s5)"
    by (metis prod.collapse)
  from pipeline_state [OF st1 st2 s3 s4 s5]
  obtain cnt ds sp si sb ps dr' rc sv eo B R D P I tot where
    c: "pmt_cnt s5 = Some cnt \<and> pmt_date s5 = Some ds
         \<and> scheduled_principal s5 = Some sp \<and> scheduled_interest s5 = Some si
         \<and> scheduled_balance s5 = Some sb \<and> prepay_speed s5 = Some ps
         \<and> default_rate s5 = Some dr' \<and> recovery s5 = Some rc
         \<and> servicing_cf s5 = Some sv \<and> earout_cf s5 = Some eo
         \<and> balance s5 = Some B \<and> principle s5 = Some R \<and> default_amt s5 = Some D
         \<and> prepay s5 = Some P \<and> interest s5 = Some I \<and> total_cf s5 = Some tot
         \<and> 18 \<le> loan_term l
         \<and> length cnt = nat (loan_term l + 1) \<and> length ds = nat (loan_term l + 1)
         \<and> length sp = nat (loan_term l + 1) \<and> length si = nat (loan_term l + 1)
         \<and> length sb = nat (loan_term l + 1) \<and> length ps = nat (loan_term l + 1)
         \<and> length rc = nat (loan_term l + 1) \<and> length sv = nat (loan_term l + 1)
         \<and> length eo = nat (loan_term l + 1) \<and> length B = nat (loan_term l + 1)
         \<and> length R = nat (loan_term l + 1) \<and> length D = nat (loan_term l + 1)
         \<and> length P = nat (loan_term l + 1) \<and> length I = nat (loan_term l + 1)
         \<and> length tot = nat (loan_term l + 1)
         \<and> dr' \<in> snd ` set (CHARGED_OFF T)
         \<and> cnt ! 0 = 0 \<and> sp ! 0 = 0 \<and> si ! 0 = 0 \<and> sb ! 0 = invested l \<and> ps ! 0 = 0
         \<and> B ! 0 = invested l \<and> R ! 0 = 0 \<and> D ! 0 = 0 \<and> P ! 0 = 0 \<and> I ! 0 = 0
         \<and> rc ! 0 = 0 \<and> sv ! 0 = 0 \<and> eo ! 0 = 0
         \<and> tot ! 0 = - invested l * (1 + premium l)"
    by blast
  from pipeline_default_rate [OF s3 s4 s5] dr(1) have d5: "default_rate s5 = Some dr" by simp
  from c have len: "length ds \<le> length dr" using dr(2) by simp
  have "\<exists>df. to_dataframe s5 = Inr df"
    by (rule to_dataframe_ok [where ds = ds and dr = dr and cnt = cnt and sp = sp and si = si
          and sb = sb and ps = ps and rc = rc and sv = sv and eo = eo and B = B and R = R
          and D = D and P = P and I = I and tot = tot])
       (use c d5 len in simp_all)
  then obtain df where "to_dataframe s5 = Inr df" by blast
  with st1 st2 s3 s4 s5 have "calc_cashflows T l s = (Inr df, s5)"
    by (cases "truthy (charge_off_col_num l)") (simp_all add: calc_cashflows_def)
  with d5 show ?thesis by blast
qed


text \<open>The orchestration on \<open>T0\<close>, \<open>L0\<close> and a fresh object.\<close>

lemma L0_key: "charge_off_lookup_key L0 = ''18-C4''"
  by (simp add: L0_def Loan_def str_int_def str_nat.simps)

lemma L0_step1:
  "fetch_prepay_speed T0 (loan_term L0) Amortization
     = (Inr (), Amortization\<lparr>prepay_speed := Some (0 # replicate 18 (1 / 50))\<rparr>)"
  by (simp add: fetch_prepay_speed_def T0_def L0_def Loan_def dropna_def assign_tail_def
        zeros_def Let_def)

lemma L0_step2:
  "fetch_default_rate T0 (if truthy (charge_off_col_num L0) then charge_off_col_num L0
                           else PyStr (charge_off_lookup_key L0))
      (Amortization\<lparr>prepay_speed := Some (0 # replicate 18 (1 / 50))\<rparr>) = (Inr (), S0)"
proof -
  have "charge_off_col_num L0 = PyInt 0" by (simp add: L0_def Loan_def)
  then show ?thesis
    by (simp add: L0_key fetch_default_rate_def T0_def S0_def)
qed

lemma L0_step3:
  "fst (payment_date (issue_date L0) (loan_term L0) (amort_freq L0) S0) = Inr ()"
proof -
  have "\<exists>ds. date_range (issue_date L0) (nat (loan_term L0 + 1)) (amort_freq L0) = Inr ds"
    using date_range_M_ok [of "issue_date L0" "nat (loan_term L0 + 1)"]
    by (simp add: L0_def Loan_def)
  then obtain ds where "date_range (issue_date L0) (nat (loan_term L0 + 1)) (amort_freq L0) = Inr ds"
    by blast
  then show ?thesis
    by (rule payment_date_small_day) (simp_all add: L0_def Loan_def)
qed

lemma L0_completes:
  "\<exists>df s'. calc_cashflows T0 L0 Amortization = (Inr df, s')
     \<and> default_rate s' = Some (replicate 20 (1 / 100))"
  by (rule calc_cashflows_completes [OF L0_step1 L0_step2 _ _ L0_step3, of _ 12])
     (simp_all add: S0_def L0_def Loan_def FREQ_PERIOD_MAP_def)

lemma L0_cashflows_eq:
  "calc_cashflows T0 L0 Amortization
     = (Inr (projr (fst (calc_cashflows T0 L0 Amortization))),
        snd (calc_cashflows T0 L0 Amortization))"
  using L0_completes by auto

text \<open>For \<open>L0\<close> on \<open>T0\<close>: 19 balances, and a default-rate series of at least 19.\<close>

theorem series_lengths_witness:
  "calc_cashflows T0 L0 Amortization
     = (Inr (projr (fst (calc_cashflows T0 L0 Amortization))),
        snd (calc_cashflows T0 L0 Amortization))
   \<and> (\<exists>B dr. balance (snd (calc_cashflows T0 L0 Amortization)) = Some B \<and> length B = 19
          \<and> B ! 0 = 1000
          \<and> default_rate (snd (calc_cashflows T0 L0 Amortization)) = Some dr
          \<and> 19 \<le> length dr)"
proof -
  from series_lengths [OF L0_cashflows_eq] obtain B dr where
    "balance (snd (calc_cashflows T0 L0 Amortization)) = Some B"
    "length B = nat (loan_term L0 + 1)" "B ! 0 = invested L0"
    "default_rate (snd (calc_cashflows T0 L0 Amortization)) = Some dr"
    "nat (loan_term L0 + 1) \<le> length dr"
    by blast
  then show ?thesis using L0_cashflows_eq by (simp add: L0_def Loan_def)
qed

text \<open>
  C7 as stated fails on a charge-off table with more rows than the loan has periods:
  \<open>T0\<close> has 20 rows, and the orchestration of the loan of 18 periods completes with a
  default-rate series of 20 entries, not 19.
\<close>

theorem default_rate_series_longer:
  "\<not> isl (fst (calc_cashflows T0 L0 Amortization))
   \<and> map_option length (default_rate (snd (calc_cashflows T0 L0 Amortization))) = Some 20
   \<and> nat (loan_term L0 + 1) = 19"
  using L0_completes by (auto simp: L0_def Loan_def)

subsection \<open>The explicit selector\<close>

lemma calc_scheduled_col [simp]:
  "calc_scheduled_cashflow (l\<lparr>charge_off_col_num := c\<rparr>) s = calc_scheduled_cashflow l s"
  by (simp add: calc_scheduled_cashflow_def Let_def cong: option.case_cong if_cong)

lemma cashflow_totals_col [simp]:
  "cashflow_totals (l\<lparr>charge_off_col_num := c\<rparr>) n ppy w s = cashflow_totals l n ppy w s"
  by (simp add: cashflow_totals_def Let_def cong: if_cong)

lemma calc_adjust_col [simp]:
  "calc_default_prepay_adjust_cashflow (l\<lparr>charge_off_col_num := c\<rparr>) s
     = calc_default_prepay_adjust_cashflow l s"
  by (simp add: calc_default_prepay_adjust_cashflow_def Let_def
        cong: option.case_cong sum.case_cong prod.case_cong if_cong)

lemma fetch_default_rate_PyInt_Inr:
  assumes "fetch_default_rate T (PyInt c) s = (Inr (), s')"
  shows "- int (length (CHARGED_OFF T)) \<le> c" "c < int (length (CHARGED_OFF T))"
    "s' = s\<lparr>default_rate :=
             Some (snd (CHARGED_OFF T ! nat (if c < 0 then int (length (CHARGED_OFF T)) + c
                                             else c)))\<rparr>"
  using assms by (auto simp: fetch_default_rate_def Let_def split: if_splits)

text \<open>
  C10, as the code has it. For a loan whose explicit column selector is the integer
  0, \<open>calc_cashflows\<close> behaves as for the same loan with no selector: when it
  completes, the default-rate series is the column labelled with the loan's
  \<open>term-grade\<close> key, whatever column 0 holds; and when the prepay speeds are found but
  no column has that label, it raises the \<open>KeyError\<close> of the lookup by key, even though
  column 0 exists. An integer selector \<open>c\<close> other than 0 takes effect: when
  \<open>calc_cashflows\<close> completes on a table of \<open>n\<close> columns, \<open>c\<close> lies from \<open>- n\<close> to
  \<open>n - 1\<close> and the default-rate series is column \<open>c\<close>, counted from the end when \<open>c\<close> is
  negative. So the index 0 does not select column 0, and the index \<open>- n\<close> does.
\<close>

theorem explicit_selector_effect:
  fixes T :: tables and l :: loan and s :: amortization
  defines "n \<equiv> int (length (CHARGED_OFF T))"
  shows
  "(charge_off_col_num l = PyInt 0 \<longrightarrow>
      calc_cashflows T l s = calc_cashflows T (l\<lparr>charge_off_col_num := PyNone\<rparr>) s
      \<and> (\<forall>df s'. calc_cashflows T l s = (Inr df, s') \<longrightarrow>
            (\<exists>col. map_of (CHARGED_OFF T) (charge_off_lookup_key l) = Some col
                   \<and> default_rate s' = Some col))
      \<and> (\<forall>s1. fetch_prepay_speed T (loan_term l) s = (Inr (), s1)
                \<and> map_of (CHARGED_OFF T) (charge_off_lookup_key l) = None \<longrightarrow>
            calc_cashflows T l s
              = (Inl (KeyError (charge_off_lookup_key l
                                  @ '' cannot be found in the Charge Off table'')), s1)))
   \<and> (\<forall>c df s'. charge_off_col_num l = PyInt c \<and> c \<noteq> 0
                  \<and> calc_cashflows T l s = (Inr df, s') \<longrightarrow>
          - n \<le> c \<and> c < n
          \<and> default_rate s' = Some (snd (CHARGED_OFF T ! nat (if c < 0 then n + c else c))))"
proof (intro conjI allI impI)
  assume z: "charge_off_col_num l = PyInt 0"
  then show "calc_cashflows T l s = calc_cashflows T (l\<lparr>charge_off_col_num := PyNone\<rparr>) s"
    by (simp add: calc_cashflows_def)
next
  fix df s'
  assume z: "charge_off_col_num l = PyInt 0"
    and c: "calc_cashflows T l s = (Inr df, s')"
  from calc_cashflows_Inr [OF c] z obtain s1 s2 s3 s4 where
    st2: "fetch_default_rate T (PyStr (charge_off_lookup_key l)) s1 = (Inr (), s2)" and
    st: "payment_date (issue_date l) (loan_term l) (amort_freq l) s2 = (Inr (), s3)"
      "calc_scheduled_cashflow l s3 = (Inr (), s4)"
      "calc_default_prepay_adjust_cashflow l s4 = (Inr (), s')"
    by auto
  from fetch_default_rate_Inr [OF st2] obtain col where
    "s2 = s1\<lparr>default_rate := Some col\<rparr>"
    "map_of (CHARGED_OFF T) (charge_off_lookup_key l) = Some col"
    by blast
  with pipeline_default_rate [OF st]
  show "\<exists>col. map_of (CHARGED_OFF T) (charge_off_lookup_key l) = Some col
                   \<and> default_rate s' = Some col"
    by simp
next
  fix s1
  assume z: "charge_off_col_num l = PyInt 0"
    and "fetch_prepay_speed T (loan_term l) s = (Inr (), s1)
                \<and> map_of (CHARGED_OFF T) (charge_off_lookup_key l) = None"
  with z show "calc_cashflows T l s
              = (Inl (KeyError (charge_off_lookup_key l
                                  @ '' cannot be found in the Charge Off table'')), s1)"
    by (simp add: calc_cashflows_def fetch_default_rate_def)
next
  fix c df s'
  assume a: "charge_off_col_num l = PyInt c \<and> c \<noteq> 0
                  \<and> calc_cashflows T l s = (Inr df, s')"
  then have cc: "calc_cashflows T l s = (Inr df, s')" by simp
  from calc_cashflows_Inr [OF cc] a obtain s1 s2 s3 s4 where
    st2: "fetch_default_rate T (PyInt c) s1 = (Inr (), s2)" and
    st: "payment_date (issue_date l) (loan_term l) (amort_freq l) s2 = (Inr (), s3)"
      "calc_scheduled_cashflow l s3 = (Inr (), s4)"
      "calc_default_prepay_adjust_cashflow l s4 = (Inr (), s')"
    by auto
  note f = fetch_default_rate_PyInt_Inr [OF st2]
  from f(1) show "- n \<le> c" by (simp add: n_def)
  from f(2) show "c < n" by (simp add: n_def)
  from f(3) pipeline_default_rate [OF st]
  show "default_rate s' = Some (snd (CHARGED_OFF T ! nat (if c < 0 then n + c else c)))"
    by (simp add: n_def)
qed

text \<open>
  \<open>L0\<close> has the selector 0. On \<open>T0\<close> the series is the column \<open>18-C4\<close> and not
  column 0; on \<open>T1\<close>, which has a column 0 and no column \<open>18-C4\<close>, the lookup fails.
  \<open>Lm2\<close> is \<open>L0\<close> with the selector \<open>- 2\<close>: on \<open>T0\<close>, of two columns, the series is
  column 0.
\<close>

lemma L0_step1_T1:
  "fetch_prepay_speed T1 (loan_term L0) Amortization
     = (Inr (), Amortization\<lparr>prepay_speed := Some (0 # replicate 18 (1 / 50))\<rparr>)"
  by (simp add: fetch_prepay_speed_def T1_def L0_def Loan_def dropna_def assign_tail_def
        zeros_def Let_def)

lemma Lm2_step1:
  "fetch_prepay_speed T0 (loan_term Lm2) Amortization
     = (Inr (), Amortization\<lparr>prepay_speed := Some (0 # replicate 18 (1 / 50))\<rparr>)"
  using L0_step1 by (simp add: Lm2_def)

lemma Lm2_step2:
  "fetch_default_rate T0 (if truthy (charge_off_col_num Lm2) then charge_off_col_num Lm2
                           else PyStr (charge_off_lookup_key Lm2))
      (Amortization\<lparr>prepay_speed := Some (0 # replicate 18 (1 / 50))\<rparr>)
     = (Inr (), Amortization\<lparr>prepay_speed := Some (0 # replicate 18 (1 / 50)),
                  default_rate := Some (replicate 20 (1 / 200))\<rparr>)"
  by (simp add: Lm2_def fetch_default_rate_def T0_def)

lemma Lm2_step3:
  "fst (payment_date (issue_date Lm2) (loan_term Lm2) (amort_freq Lm2) s) = Inr ()"
proof -
  have "\<exists>ds. date_range (issue_date Lm2) (nat (loan_term Lm2 + 1)) (amort_freq Lm2) = Inr ds"
    using date_range_M_ok [of "issue_date L0" "nat (loan_term L0 + 1)"]
    by (simp add: Lm2_def L0_def Loan_def)
  then obtain ds where
    "date_range (issue_date Lm2) (nat (loan_term Lm2 + 1)) (amort_freq Lm2) = Inr ds"
    by blast
  then show ?thesis
    by (rule payment_date_small_day) (simp_all add: Lm2_def L0_def Loan_def)
qed

lemma Lm2_completes:
  "\<exists>df s'. calc_cashflows T0 Lm2 Amortization = (Inr df, s')
     \<and> default_rate s' = Some (replicate 20 (1 / 200))"
  by (rule calc_cashflows_completes [OF Lm2_step1 Lm2_step2 _ _ Lm2_step3, of _ 12])
     (simp_all add: Lm2_def L0_def Loan_def FREQ_PERIOD_MAP_def)

lemma Lm2_cashflows_eq:
  "calc_cashflows T0 Lm2 Amortization
     = (Inr (projr (fst (calc_cashflows T0 Lm2 Amortization))),
        snd (calc_cashflows T0 Lm2 Amortization))"
  using Lm2_completes by auto

theorem explicit_selector_effect_witness:
  "charge_off_col_num L0 = PyInt 0
   \<and> calc_cashflows T0 L0 Amortization
       = (Inr (projr (fst (calc_cashflows T0 L0 Amortization))),
          snd (calc_cashflows T0 L0 Amortization))
   \<and> snd (CHARGED_OFF T0 ! 0) = replicate 20 (1 / 200)
   \<and> default_rate (snd (calc_cashflows T0 L0 Amortization)) = Some (replicate 20 (1 / 100))
   \<and> fetch_prepay_speed T1 (loan_term L0) Amortization
       = (Inr (), Amortization\<lparr>prepay_speed := Some (0 # replicate 18 (1 / 50))\<rparr>)
   \<and> map_of (CHARGED_OFF T1) (charge_off_lookup_key L0) = None
   \<and> snd (CHARGED_OFF T1 ! 0) = replicate 20 (1 / 200)
   \<and> calc_cashflows T1 L0 Amortization
       = (Inl (KeyError ''18-C4 cannot be found in the Charge Off table''),
          Amortization\<lparr>prepay_speed := Some (0 # replicate 18 (1 / 50))\<rparr>)
   \<and> charge_off_col_num Lm2 = PyInt (- 2) \<and> (- 2 :: int) \<noteq> 0
   \<and> calc_cashflows T0 Lm2 Amortization
       = (Inr (projr (fst (calc_cashflows T0 Lm2 Amortization))),
          snd (calc_cashflows T0 Lm2 Amortization))
   \<and> default_rate (snd (calc_cashflows T0 Lm2 Amortization))
       = Some (replicate 20 (1 / 200))"
proof -
  have z: "charge_off_col_num L0 = PyInt 0" by (simp add: L0_def Loan_def)
  have m: "charge_off_col_num Lm2 = PyInt (- 2)" by (simp add: Lm2_def)
  have nz: "(- 2 :: int) \<noteq> 0" by simp
  note A = explicit_selector_effect [of L0 T0 Amortization, THEN conjunct1, THEN mp, OF z]
  note B = explicit_selector_effect [of L0 T1 Amortization, THEN conjunct1, THEN mp, OF z]
  note C = explicit_selector_effect [of Lm2 T0 Amortization, THEN conjunct2, rule_format,
             OF conjI [OF m conjI [OF nz Lm2_cashflows_eq]]]
  from A [THEN conjunct2, THEN conjunct1, rule_format, OF L0_cashflows_eq]
  have a: "default_rate (snd (calc_cashflows T0 L0 Amortization)) = Some (replicate 20 (1 / 100))"
    by (simp add: L0_key T0_def)
  have n: "map_of (CHARGED_OFF T1) (charge_off_lookup_key L0) = None"
    by (simp add: L0_key T1_def)
  from B [THEN conjunct2, THEN conjunct2, rule_format, OF conjI [OF L0_step1_T1 n]]
  have b: "calc_cashflows T1 L0 Amortization
       = (Inl (KeyError ''18-C4 cannot be found in the Charge Off table''),
          Amortization\<lparr>prepay_speed := Some (0 # replicate 18 (1 / 50))\<rparr>)"
    by (simp add: L0_key)
  have c: "snd (CHARGED_OFF T0 ! 0) = replicate 20 (1 / 200)"
    "snd (CHARGED_OFF T1 ! 0) = replicate 20 (1 / 200)"
    by (simp_all add: T0_def T1_def)
  from C have d: "default_rate (snd (calc_cashflows T0 Lm2 Amortization))
       = Some (replicate 20 (1 / 200))"
    by (simp add: T0_def)
  show ?thesis
    by (intro conjI) (fact z L0_cashflows_eq c a L0_step1_T1 n b m nz Lm2_cashflows_eq d)+
qed

text \<open>
  C10 as stated fails in its conclusion: column 0 is reached through the
  orchestration by the selector \<open>- 2\<close> on the table \<open>T0\<close> of two columns. The run
  completes, and its default-rate series is column 0 and not the column of the key
  \<open>18-C4\<close>.
\<close>

theorem column_zero_by_negative_index:
  "charge_off_col_num Lm2 = PyInt (- 2)
   \<and> \<not> isl (fst (calc_cashflows T0 Lm2 Amortization))
   \<and> default_rate (snd (calc_cashflows T0 Lm2 Amortization)) = Some (snd (CHARGED_OFF T0 ! 0))
   \<and> map_of (CHARGED_OFF T0) (charge_off_lookup_key Lm2) \<noteq> Some (snd (CHARGED_OFF T0 ! 0))"
proof -
  have k: "charge_off_lookup_key Lm2 = ''18-C4''" using L0_key by (simp add: Lm2_def)
  have "map_of (CHARGED_OFF T0) (charge_off_lookup_key Lm2) \<noteq> Some (snd (CHARGED_OFF T0 ! 0))"
    unfolding k by (simp add: T0_def)
  moreover have "snd (CHARGED_OFF T0 ! 0) = replicate 20 (1 / 200)" by (simp add: T0_def)
  ultimately show ?thesis using Lm2_completes by (auto simp: Lm2_def)
qed

subsection \<open>The rate of return\<close>

lemma nonlin_solve_no_failure:
  assumes "\<And>G st. \<exists>st'. update G st = Inr st'"
  shows "\<exists>x. nonlin_solve update F f_tol n st = Returned x
           \<or> nonlin_solve update F f_tol n st = NoConvergence x"
proof (induction n arbitrary: st)
  case 0
  show ?case by (cases st) simp
next
  case (Suc n)
  obtain x jac where st: "st = (x, jac)" by (cases st)
  from assms obtain st' where u: "update F (x, jac) = Inr st'" by blast
  from Suc.IH [of st'] show ?case by (auto simp: st u)
qed

text \<open>
  C3. For every cash-flow sequence, guess and root-finder: when the root-finder ends
  in \<open>NoConvergence\<close> with the estimate \<open>x\<close>, \<open>irr\<close> does not raise; it returns \<open>x\<close>
  and logs the warning. An exception leaves \<open>irr\<close> only when the root-finder raised
  another one; with the modelled root-finder and a step that never raises, \<open>irr\<close>
  returns a rate whatever the budget.
\<close>

theorem irr_no_convergence:
  "(solver (npv cashflow) guess (1 / 10 ^ 10) = NoConvergence x \<longrightarrow>
      irr solver cashflow guess = (Inr x, [''IRR solver doesn't converge!'']))
   \<and> (\<forall>e. fst (irr solver cashflow guess) = Inl e \<longrightarrow>
          solver (npv cashflow) guess (1 / 10 ^ 10) = Failed e)
   \<and> ((\<forall>G st. \<exists>st'. update G st = Inr st') \<longrightarrow>
          (\<exists>r. fst (irr (broyden1 update jac0 maxiter) cashflow guess) = Inr r))"
proof (intro conjI impI allI)
  assume "solver (npv cashflow) guess (1 / 10 ^ 10) = NoConvergence x"
  then show "irr solver cashflow guess = (Inr x, [''IRR solver doesn't converge!''])"
    by (simp add: irr_def)
next
  fix e assume "fst (irr solver cashflow guess) = Inl e"
  then show "solver (npv cashflow) guess (1 / 10 ^ 10) = Failed e"
    by (auto simp: irr_def split: solver_outcome.splits)
next
  assume "\<forall>G st. \<exists>st'. update G st = Inr st'"
  then have "\<exists>x. nonlin_solve update (npv cashflow) (1 / 10 ^ 10) maxiter (guess, jac0)
                   = Returned x
               \<or> nonlin_solve update (npv cashflow) (1 / 10 ^ 10) maxiter (guess, jac0)
                   = NoConvergence x"
    by (intro nonlin_solve_no_failure) blast
  then obtain x where
    "broyden1 update jac0 maxiter (npv cashflow) guess (1 / 10 ^ 10) = Returned x
     \<or> broyden1 update jac0 maxiter (npv cashflow) guess (1 / 10 ^ 10) = NoConvergence x"
    unfolding broyden1_def by blast
  then show "\<exists>r. fst (irr (broyden1 update jac0 maxiter) cashflow guess) = Inr r"
    by (auto simp: irr_def)
qed

text \<open>
  On the single cash flow 1 the net present value is 1 at every rate: a root-finder
  with two steps, each adding 1 to the rate, gives up at 2; one whose step raises
  makes \<open>irr\<close> raise.
\<close>

theorem irr_no_convergence_witness:
  "broyden1 (\<lambda>F st. Inr (fst st + 1, snd st)) () 2 (npv [1]) 0 (1 / 10 ^ 10) = NoConvergence 2
   \<and> irr (broyden1 (\<lambda>F st. Inr (fst st + 1, snd st)) () 2) [1] 0
       = (Inr 2, [''IRR solver doesn't converge!''])
   \<and> fst (irr (broyden1 (\<lambda>F st. Inl (ValueError ''Jacobian inversion yielded zero vector''))
                 () 2) [1] 0)
       = Inl (ValueError ''Jacobian inversion yielded zero vector'')
   \<and> broyden1 (\<lambda>F st. Inl (ValueError ''Jacobian inversion yielded zero vector'')) () 2
        (npv [1]) 0 (1 / 10 ^ 10)
       = Failed (ValueError ''Jacobian inversion yielded zero vector'')
   \<and> (\<forall>G st. \<exists>st'. (\<lambda>F st. Inr (fst st + 1, snd st) :: error + real \<times> unit) G st = Inr st')
   \<and> (\<exists>r. fst (irr (broyden1 (\<lambda>F st. Inr (fst st + 1, snd st)) () 2) [1] 0) = Inr r)"
proof -
  have n: "npv [1] r = 1" for r by (simp add: npv_def)
  have a: "broyden1 (\<lambda>F st. Inr (fst st + 1, snd st)) () 2 (npv [1]) 0 (1 / 10 ^ 10)
             = NoConvergence 2"
    by (simp add: broyden1_def numeral_2_eq_2 n)
  have b: "fst (irr (broyden1 (\<lambda>F st. Inl (ValueError ''Jacobian inversion yielded zero vector''))
                 () 2) [1] 0)
       = Inl (ValueError ''Jacobian inversion yielded zero vector'')"
    by (simp add: irr_def broyden1_def numeral_2_eq_2 n)
  have c: "\<forall>G st. \<exists>st'. (\<lambda>F st. Inr (fst st + 1, snd st) :: error + real \<times> unit) G st = Inr st'"
    by simp
  note A = irr_no_convergence [of "broyden1 (\<lambda>F st. Inr (fst st + 1, snd st)) () 2" "[1]" 0 2
      "\<lambda>F st. Inr (fst st + 1, snd st) :: error + real \<times> unit" "()" 2]
  note B = irr_no_convergence [of
      "broyden1 (\<lambda>F st. Inl (ValueError ''Jacobian inversion yielded zero vector'')) () 2"
      "[1]" 0 2 "\<lambda>F st. Inr (fst st + 1, snd st) :: error + real \<times> unit" "()" 2]
  from A [THEN conjunct1, rule_format, OF a]
  have a': "irr (broyden1 (\<lambda>F st. Inr (fst st + 1, snd st)) () 2) [1] 0
       = (Inr 2, [''IRR solver doesn't converge!''])" .
  from B [THEN conjunct2, THEN conjunct1, rule_format, OF b]
  have b': "broyden1 (\<lambda>F st. Inl (ValueError ''Jacobian inversion yielded zero vector'')) () 2
        (npv [1]) 0 (1 / 10 ^ 10)
       = Failed (ValueError ''Jacobian inversion yielded zero vector'')" .
  from A [THEN conjunct2, THEN conjunct2, THEN mp, OF c]
  have c': "\<exists>r. fst (irr (broyden1 (\<lambda>F st. Inr (fst st + 1, snd st)) () 2) [1] 0) = Inr r" .
  from a a' b b' c c' show ?thesis by (intro conjI)
qed

lemma nonlin_solve_Returned:
  "nonlin_solve update F f_tol n st = Returned r \<Longrightarrow> \<bar>F r\<bar> \<le> f_tol"
proof (induction n arbitrary: st)
  case 0
  then show ?case by (cases st) simp
next
  case (Suc n)
  obtain x jac where st: "st = (x, jac)" by (cases st)
  show ?case
  proof (cases "\<bar>F x\<bar> \<le> f_tol")
    case True
    with Suc.prems st show ?thesis by simp
  next
    case False
    with Suc.prems st obtain st' where "nonlin_solve update F f_tol n st' = Returned r"
      by (auto split: sum.splits)
    then show ?thesis by (rule Suc.IH)
  qed
qed

text \<open>
  C4. For every cash-flow sequence \<open>v\<close> on which the root-finder returns a rate (the
  fallback for \<open>NoConvergence\<close> is not taken), \<open>irr\<close> returns that rate and the net
  present value of \<open>v\<close> at it is within \<open>1e-10\<close> of zero, where the net present value at
  \<open>r\<close> is the sum of \<open>v[t] / (1 + r) ^ t\<close> over the zero-based index \<open>t\<close>.
\<close>

theorem irr_round_trip:
  assumes "broyden1 update jac0 maxiter (npv v) guess (1 / 10 ^ 10) = Returned r"
  shows "irr (broyden1 update jac0 maxiter) v guess = (Inr r, [])
       \<and> \<bar>npv v r\<bar> \<le> 1 / 10 ^ 10"
proof -
  from assms have "\<bar>npv v r\<bar> \<le> 1 / 10 ^ 10"
    unfolding broyden1_def by (rule nonlin_solve_Returned)
  with assms show ?thesis by (simp add: irr_def)
qed

text \<open>
  The flows \<open>- 100, 110\<close> from the guess 0, with a step that moves to the rate
  \<open>1 / 10\<close>: the value 10 at the guess is out of tolerance, the value 0 at
  \<open>1 / 10\<close> is within it.
\<close>

theorem irr_round_trip_witness:
  "broyden1 (\<lambda>F st. Inr (1 / 10, snd st)) () 5 (npv [- 100, 110]) 0 (1 / 10 ^ 10)
     = Returned (1 / 10)
   \<and> irr (broyden1 (\<lambda>F st. Inr (1 / 10, snd st)) () 5) [- 100, 110] 0 = (Inr (1 / 10), [])
   \<and> \<bar>npv [- 100, 110] (1 / 10)\<bar> \<le> 1 / 10 ^ 10"
proof -
  have n0: "npv [- 100, 110] 0 = 10" by (simp add: npv_def upt_rec)
  have n1: "npv [- 100, 110] (1 / 10) = 0" by (simp add: npv_def upt_rec)
  have a: "broyden1 (\<lambda>F st. Inr (1 / 10, snd st)) () 5 (npv [- 100, 110]) 0 (1 / 10 ^ 10)
     = Returned (1 / 10)"
    by (simp add: broyden1_def eval_nat_numeral n0 n1)
  from irr_round_trip [OF a] a show ?thesis by simp
qed

subsection \<open>Payment dates\<close>

lemma month_end_after_0:
  assumes "valid_date d"
  shows "month_end_after 0 d = d\<lparr>day := days_in_month (year d) (month d)\<rparr>"
proof -
  from assms have m: "1 \<le> month d" "month d \<le> 12" by (simp_all add: valid_date_def)
  define t where "t = year d * 12 + int (month d) - 1"
  define k where "k = int (month d) - 1"
  from m have k: "0 \<le> k" "k < 12" by (simp_all add: k_def)
  have tk: "t = k + year d * 12" by (simp add: t_def k_def)
  from k have "t div 12 = year d" "t mod 12 = k"
    unfolding tk by simp_all
  then have "t div 12 = year d" "t mod 12 = int (month d) - 1" by (simp_all add: k_def)
  then have "t div 12 = year d" "nat (t mod 12) + 1 = month d" using m by simp_all
  then show ?thesis by (simp add: month_end_after_def Let_def t_def [symmetric])
qed

lemma date_less_by_month:
  assumes "1 \<le> month a" "month a \<le> 12" "1 \<le> month b" "month b \<le> 12"
    "year a * 12 + int (month a) < year b * 12 + int (month b)"
  shows "date_less a b"
  using assms unfolding date_less_def by linarith

lemma date_less_trans: "date_less a b \<Longrightarrow> date_less b c \<Longrightarrow> date_less a c"
  unfolding date_less_def by linarith

lemma days_in_month_pos: "0 < days_in_month y m"
  by (simp add: days_in_month_def)

lemma next_day_valid: "valid_date d \<Longrightarrow> valid_date (next_day d) \<and> date_less d (next_day d)"
  using days_in_month_pos [of "year d" "month d + 1"] days_in_month_pos [of "year d + 1" 1]
  by (auto simp: valid_date_def next_day_def date_less_def)

lemma next_day_iter:
  assumes "valid_date d"
  shows "valid_date ((next_day ^^ i) d)"
    and "i < j \<Longrightarrow> date_less ((next_day ^^ i) d) ((next_day ^^ j) d)"
proof -
  show v: "valid_date ((next_day ^^ i) d)" for i
    using assms next_day_valid by (induction i) simp_all
  show "i < j \<Longrightarrow> date_less ((next_day ^^ i) d) ((next_day ^^ j) d)"
  proof (induction j)
    case 0
    then show ?case by simp
  next
    case (Suc j)
    from next_day_valid [OF v [of j]]
    have s: "date_less ((next_day ^^ j) d) ((next_day ^^ Suc j) d)" by simp
    show ?case
    proof (cases "i = j")
      case True
      with s show ?thesis by simp
    next
      case False
      with Suc.prems have "i < j" by simp
      from date_less_trans [OF Suc.IH [OF this] s] show ?thesis .
    qed
  qed
qed

text \<open>The raw series of the month-end codes.\<close>

lemma month_range_facts:
  fixes c :: int
  assumes v: "valid_date start" and c: "1 \<le> c"
    and raw: "raw = map (\<lambda>k. month_end_after (c * int k) start) [0..<n]"
    and ok: "day start = day (raw ! 0) \<or>
             (\<forall>t \<in> set raw. day start \<le> days_in_month (year t) (month t))"
    and n: "0 < n"
    and ds: "ds = (if day start = day (raw ! 0) then raw
                   else map (\<lambda>t. t\<lparr>day := day start\<rparr>) raw)"
  shows "length ds = n"
    and "\<forall>i. i < n \<longrightarrow> year (ds ! i) * 12 + int (month (ds ! i))
                          = year start * 12 + int (month start) + c * int i"
    and "\<forall>i j. i < j \<and> j < n \<longrightarrow> date_less (ds ! i) (ds ! j)"
    and "ds ! 0 = start"
    and "day start \<noteq> day (raw ! 0) \<longrightarrow> (\<forall>t \<in> set ds. day t = day start)"
proof -
  have lr: "length raw = n" by (simp add: raw)
  show ld: "length ds = n" by (simp add: ds lr)
  have ym: "year (ds ! i) = year (raw ! i) \<and> month (ds ! i) = month (raw ! i)" if "i < n" for i
    using that lr by (simp add: ds)
  have ri: "raw ! i = month_end_after (c * int i) start" if "i < n" for i
    using that by (simp add: raw)
  have idx: "year (ds ! i) * 12 + int (month (ds ! i))
               = year start * 12 + int (month start) + c * int i" if "i < n" for i
    using ym [OF that] ri [OF that] month_end_after_facts(1) [of "c * int i" start] by simp
  then show "\<forall>i. i < n \<longrightarrow> year (ds ! i) * 12 + int (month (ds ! i))
                          = year start * 12 + int (month start) + c * int i"
    by blast
  have mb: "1 \<le> month (ds ! i) \<and> month (ds ! i) \<le> 12" if "i < n" for i
    using ym [OF that] ri [OF that] month_end_after_facts(2,3) [of "c * int i" start] by simp
  show "\<forall>i j. i < j \<and> j < n \<longrightarrow> date_less (ds ! i) (ds ! j)"
  proof (intro allI impI)
    fix i j assume ij: "i < j \<and> j < n"
    then have i: "i < n" and j: "j < n" by simp_all
    from ij c have "c * int i < c * int j" by simp
    with idx [OF i] idx [OF j]
    have "year (ds ! i) * 12 + int (month (ds ! i)) < year (ds ! j) * 12 + int (month (ds ! j))"
      by simp
    with mb [OF i] mb [OF j] show "date_less (ds ! i) (ds ! j)"
      by (intro date_less_by_month) simp_all
  qed
  have r0: "raw ! 0 = start\<lparr>day := days_in_month (year start) (month start)\<rparr>"
    using ri [OF n] month_end_after_0 [OF v] by simp
  show "ds ! 0 = start"
  proof (cases "day start = day (raw ! 0)")
    case True
    with r0 have "raw ! 0 = start" by simp
    with True show ?thesis by (simp add: ds)
  next
    case False
    with n lr r0 show ?thesis by (simp add: ds)
  qed
  show "day start \<noteq> day (raw ! 0) \<longrightarrow> (\<forall>t \<in> set ds. day t = day start)"
    by (auto simp: ds)
qed


lemma date_range_shapes:
  assumes "date_range start n freq = Inr raw"
  shows "raw = map (\<lambda>k. (next_day ^^ k) start) [0..<n]
       \<or> raw = map (\<lambda>k. month_end_after (1 * int k) start) [0..<n]
       \<or> raw = map (\<lambda>k. month_end_after (3 * int k) start) [0..<n]
       \<or> raw = map (\<lambda>k. month_end_after (6 * int k) start) [0..<n]
       \<or> (freq = ''Y''
            \<and> raw = map (\<lambda>k. \<lparr>year = year start + int k, month = 12, day = 31\<rparr>) [0..<n])"
  using assms by (auto simp: date_range_def bounded_range_Inr split: if_splits)

lemma date_range_codes:
  "date_range start n ''D'' = Inr raw \<Longrightarrow> raw = map (\<lambda>k. (next_day ^^ k) start) [0..<n]"
  "date_range start n ''M'' = Inr raw \<Longrightarrow>
     raw = map (\<lambda>k. month_end_after (1 * int k) start) [0..<n]"
  "date_range start n ''3M'' = Inr raw \<Longrightarrow>
     raw = map (\<lambda>k. month_end_after (3 * int k) start) [0..<n]"
  "date_range start n ''6M'' = Inr raw \<Longrightarrow>
     raw = map (\<lambda>k. month_end_after (6 * int k) start) [0..<n]"
  "date_range start n ''Y'' = Inr raw \<Longrightarrow>
     raw = map (\<lambda>k. \<lparr>year = year start + int k, month = 12, day = 31\<rparr>) [0..<n]"
  by (auto simp: date_range_def bounded_range_Inr)

text \<open>
  C9, as the code has it. Take a valid start date that a \<^verbatim>\<open>Timestamp\<close> can hold (from
  the year 1678 on), a period count of at least 0 and one of the frequency codes \<open>D\<close>,
  \<open>M\<close>, \<open>3M\<close>, \<open>6M\<close>, with raw series \<open>raw\<close> ending before the year 2262, such that the
  start date's day of the month is that of the first raw date or exists in the month of
  every raw date. Then \<open>payment_date\<close> completes and stores \<open>periods + 1\<close> dates in
  strictly increasing order, the first of them the start date: the raw dates unchanged
  when the first of them has the start date's day, and otherwise the raw dates with
  their day replaced by the start date's, so that every stored date has that day.
  Date \<open>i\<close> is \<open>i\<close> days after the start date for \<open>D\<close>; it lies \<open>i\<close>, \<open>3 i\<close> or \<open>6 i\<close>
  months after the month of the start date for \<open>M\<close>, \<open>3M\<close> and \<open>6M\<close>. The stored dates
  are given by the inputs alone.
\<close>

theorem payment_date_schedule:
  assumes v: "valid_date start" and lo: "1678 \<le> year start" and p: "0 \<le> periods"
    and f: "freq \<noteq> ''Y''"
    and raw: "date_range start (nat (periods + 1)) freq = Inr raw"
    and hi: "\<forall>t \<in> set raw. year t < 2262"
    and ok: "day start = day (raw ! 0)
             \<or> (\<forall>t \<in> set raw. day start \<le> days_in_month (year t) (month t))"
  shows "\<exists>ds. ds = (if day start = day (raw ! 0) then raw
                     else map (\<lambda>t. t\<lparr>day := day start\<rparr>) raw)
         \<and> payment_date start periods freq s = (Inr (), s\<lparr>pmt_date := Some ds\<rparr>)
         \<and> length ds = nat (periods + 1)
         \<and> (\<forall>i j. i < j \<and> j < length ds \<longrightarrow> date_less (ds ! i) (ds ! j))
         \<and> (day start \<noteq> day (raw ! 0) \<longrightarrow> (\<forall>t \<in> set ds. day t = day start))
         \<and> ds ! 0 = start
         \<and> (freq = ''D'' \<longrightarrow> (\<forall>i. i < length ds \<longrightarrow> ds ! i = (next_day ^^ i) start))
         \<and> (freq = ''M'' \<longrightarrow> (\<forall>i. i < length ds \<longrightarrow>
               year (ds ! i) * 12 + int (month (ds ! i))
                 = year start * 12 + int (month start) + int i))
         \<and> (freq = ''3M'' \<longrightarrow> (\<forall>i. i < length ds \<longrightarrow>
               year (ds ! i) * 12 + int (month (ds ! i))
                 = year start * 12 + int (month start) + 3 * int i))
         \<and> (freq = ''6M'' \<longrightarrow> (\<forall>i. i < length ds \<longrightarrow>
               year (ds ! i) * 12 + int (month (ds ! i))
                 = year start * 12 + int (month start) + 6 * int i))"
proof -
  define n where "n = nat (periods + 1)"
  define ds where "ds = (if day start = day (raw ! 0) then raw
                         else map (\<lambda>t. t\<lparr>day := day start\<rparr>) raw)"
  from p have n: "0 < n" by (simp add: n_def)
  from date_range_length [OF raw] have lr: "length raw = n" by (simp add: n_def)
  with n obtain d0 rest where r: "raw = d0 # rest" by (cases raw) auto
  have len: "length ds = n" by (simp add: ds_def lr)
  have pd: "payment_date start periods freq s = (Inr (), s\<lparr>pmt_date := Some ds\<rparr>)"
  proof (cases "day start = day (raw ! 0)")
    case True
    with raw r show ?thesis by (simp add: payment_date_def Let_def ds_def)
  next
    case False
    with ok v have "\<forall>t \<in> set raw. 1 \<le> day start \<and> day start \<le> days_in_month (year t) (month t)"
      by (simp add: valid_date_def)
    from replace_days_ok [OF this] False raw r show ?thesis
      by (simp add: payment_date_def Let_def ds_def)
  qed
  have dk: "day start \<noteq> day (raw ! 0) \<longrightarrow> (\<forall>t \<in> set ds. day t = day start)"
    by (auto simp: ds_def)
  note raw' = raw [folded n_def]
  note shapes = date_range_shapes [OF raw']
  have month_code: "(\<forall>i. i < n \<longrightarrow> year (ds ! i) * 12 + int (month (ds ! i))
                          = year start * 12 + int (month start) + c * int i)
      \<and> (\<forall>i j. i < j \<and> j < n \<longrightarrow> date_less (ds ! i) (ds ! j)) \<and> ds ! 0 = start"
    if "raw = map (\<lambda>k. month_end_after (c * int k) start) [0..<n]" "1 \<le> c" for c :: int
    using month_range_facts(2,3,4) [OF v that(2) that(1) ok n ds_def] by blast
  have day_code: "(\<forall>i. i < n \<longrightarrow> ds ! i = (next_day ^^ i) start)
      \<and> (\<forall>i j. i < j \<and> j < n \<longrightarrow> date_less (ds ! i) (ds ! j)) \<and> ds ! 0 = start"
    if rd: "raw = map (\<lambda>k. (next_day ^^ k) start) [0..<n]"
  proof -
    from n have "raw ! 0 = start" by (simp add: rd)
    then have e: "ds = raw" by (simp add: ds_def)
    have nth: "ds ! i = (next_day ^^ i) start" if "i < n" for i
      using that by (simp add: e rd)
    have "date_less (ds ! i) (ds ! j)" if "i < j \<and> j < n" for i j
      using that nth [of i] nth [of j] next_day_iter(2) [OF v, of i j] by simp
    with nth n show ?thesis by (metis funpow_0)
  qed
  from shapes f consider
      (D) "raw = map (\<lambda>k. (next_day ^^ k) start) [0..<n]"
    | (M1) "raw = map (\<lambda>k. month_end_after (1 * int k) start) [0..<n]"
    | (M3) "raw = map (\<lambda>k. month_end_after (3 * int k) start) [0..<n]"
    | (M6) "raw = map (\<lambda>k. month_end_after (6 * int k) start) [0..<n]"
    by (elim disjE conjE) simp_all
  then have both: "(\<forall>i j. i < j \<and> j < n \<longrightarrow> date_less (ds ! i) (ds ! j)) \<and> ds ! 0 = start"
  proof cases
    case D
    from day_code [OF D] show ?thesis by (elim conjE) (intro conjI)
  next
    case M1
    from month_code [OF M1 order_refl] show ?thesis by (elim conjE) (intro conjI)
  next
    case M3
    from month_code [OF M3 one_le_numeral] show ?thesis by (elim conjE) (intro conjI)
  next
    case M6
    from month_code [OF M6 one_le_numeral] show ?thesis by (elim conjE) (intro conjI)
  qed
  then have ord: "\<forall>i j. i < j \<and> j < n \<longrightarrow> date_less (ds ! i) (ds ! j)"
    and first: "ds ! 0 = start"
    by (rule conjunct1, rule conjunct2)
  have sD: "freq = ''D'' \<longrightarrow> (\<forall>i. i < n \<longrightarrow> ds ! i = (next_day ^^ i) start)"
  proof
    assume "freq = ''D''"
    with raw' have "raw = map (\<lambda>k. (next_day ^^ k) start) [0..<n]"
      by (simp only: date_range_codes)
    from day_code [OF this] show "\<forall>i. i < n \<longrightarrow> ds ! i = (next_day ^^ i) start"
      by (elim conjE)
  qed
  have sM: "freq = ''M'' \<longrightarrow> (\<forall>i. i < n \<longrightarrow>
               year (ds ! i) * 12 + int (month (ds ! i))
                 = year start * 12 + int (month start) + int i)"
  proof
    assume "freq = ''M''"
    with raw' have "raw = map (\<lambda>k. month_end_after (1 * int k) start) [0..<n]"
      by (simp only: date_range_codes)
    from month_code [OF this order_refl] show "\<forall>i. i < n \<longrightarrow>
               year (ds ! i) * 12 + int (month (ds ! i))
                 = year start * 12 + int (month start) + int i"
      by simp
  qed
  have s3: "freq = ''3M'' \<longrightarrow> (\<forall>i. i < n \<longrightarrow>
               year (ds ! i) * 12 + int (month (ds ! i))
                 = year start * 12 + int (month start) + 3 * int i)"
  proof
    assume "freq = ''3M''"
    with raw' have "raw = map (\<lambda>k. month_end_after (3 * int k) start) [0..<n]"
      by (simp only: date_range_codes)
    from month_code [OF this one_le_numeral] show "\<forall>i. i < n \<longrightarrow>
               year (ds ! i) * 12 + int (month (ds ! i))
                 = year start * 12 + int (month start) + 3 * int i"
      by simp
  qed
  have s6: "freq = ''6M'' \<longrightarrow> (\<forall>i. i < n \<longrightarrow>
               year (ds ! i) * 12 + int (month (ds ! i))
                 = year start * 12 + int (month start) + 6 * int i)"
  proof
    assume "freq = ''6M''"
    with raw' have "raw = map (\<lambda>k. month_end_after (6 * int k) start) [0..<n]"
      by (simp only: date_range_codes)
    from month_code [OF this one_le_numeral] show "\<forall>i. i < n \<longrightarrow>
               year (ds ! i) * 12 + int (month (ds ! i))
                 = year start * 12 + int (month start) + 6 * int i"
      by simp
  qed
  note r = ord sD sM s3 s6
  show ?thesis
    by (rule exI [of _ ds], intro conjI)
       (fact ds_def pd len [unfolded n_def] dk first r [folded len])+
qed

text \<open>
  From 24 August 2015, two monthly periods give the 24th of August, September and
  October.
\<close>

lemma date_range_M_2015_08:
  "date_range \<lparr>year = 2015, month = 8, day = 24\<rparr> (nat (2 + 1)) ''M''
     = Inr [\<lparr>year = 2015, month = 8, day = 31\<rparr>, \<lparr>year = 2015, month = 9, day = 30\<rparr>,
            \<lparr>year = 2015, month = 10, day = 31\<rparr>]"
  by (simp add: date_range_def bounded_range_def within_timestamp_max_def
        month_end_after_def Let_def days_in_month_def is_leap_year_def upt_rec)

theorem payment_date_schedule_witness:
  "valid_date \<lparr>year = 2015, month = 8, day = 24\<rparr> \<and> (0::int) \<le> 2
   \<and> date_range \<lparr>year = 2015, month = 8, day = 24\<rparr> (nat (2 + 1)) ''M''
       = Inr [\<lparr>year = 2015, month = 8, day = 31\<rparr>, \<lparr>year = 2015, month = 9, day = 30\<rparr>,
              \<lparr>year = 2015, month = 10, day = 31\<rparr>]
   \<and> payment_date \<lparr>year = 2015, month = 8, day = 24\<rparr> 2 ''M'' Amortization
       = (Inr (), Amortization\<lparr>pmt_date :=
            Some [\<lparr>year = 2015, month = 8, day = 24\<rparr>, \<lparr>year = 2015, month = 9, day = 24\<rparr>,
                  \<lparr>year = 2015, month = 10, day = 24\<rparr>]\<rparr>)"
proof -
  have v: "valid_date \<lparr>year = 2015, month = 8, day = 24\<rparr>"
    by (simp add: valid_date_def days_in_month_def)
  have lo: "1678 \<le> year \<lparr>year = 2015, month = 8, day = 24\<rparr>" by simp
  have f: "''M'' \<noteq> ''Y''" by simp
  have hi: "\<forall>t \<in> set [\<lparr>year = 2015, month = 8, day = 31\<rparr>,
                          \<lparr>year = 2015, month = 9, day = 30\<rparr>,
                          \<lparr>year = 2015, month = 10, day = 31\<rparr>]. year t < 2262"
    by simp
  have okM: "day \<lparr>year = 2015, month = 8, day = 24\<rparr>
               = day ([\<lparr>year = 2015, month = 8, day = 31\<rparr>, \<lparr>year = 2015, month = 9, day = 30\<rparr>,
                       \<lparr>year = 2015, month = 10, day = 31\<rparr>] ! 0)
             \<or> (\<forall>t \<in> set [\<lparr>year = 2015, month = 8, day = 31\<rparr>,
                             \<lparr>year = 2015, month = 9, day = 30\<rparr>,
                             \<lparr>year = 2015, month = 10, day = 31\<rparr>].
                   day \<lparr>year = 2015, month = 8, day = 24\<rparr>
                     \<le> days_in_month (year t) (month t))"
    by (simp add: days_in_month_def)
  from payment_date_schedule [OF v lo _ f date_range_M_2015_08 hi okM, of Amortization]
  have m: "payment_date \<lparr>year = 2015, month = 8, day = 24\<rparr> 2 ''M'' Amortization
       = (Inr (), Amortization\<lparr>pmt_date :=
            Some [\<lparr>year = 2015, month = 8, day = 24\<rparr>, \<lparr>year = 2015, month = 9, day = 24\<rparr>,
                  \<lparr>year = 2015, month = 10, day = 24\<rparr>]\<rparr>)"
    by simp
  from v m date_range_M_2015_08 show ?thesis by simp
qed

text \<open>
  C9 as stated fails in two ways. From 31 January 2015 the raw series drifts to
  28 February and nothing is corrected, since only the first raw date is compared with
  the start date. From 30 January 2015 the day of every raw date is replaced by 30, and
  the replacement raises \<open>ValueError\<close> at February.
\<close>

theorem payment_date_month_end_drift:
  "date_range \<lparr>year = 2015, month = 1, day = 31\<rparr> (nat (1 + 1)) ''M''
     = Inr [\<lparr>year = 2015, month = 1, day = 31\<rparr>, \<lparr>year = 2015, month = 2, day = 28\<rparr>]
   \<and> payment_date \<lparr>year = 2015, month = 1, day = 31\<rparr> 1 ''M'' Amortization
       = (Inr (), Amortization\<lparr>pmt_date :=
            Some [\<lparr>year = 2015, month = 1, day = 31\<rparr>, \<lparr>year = 2015, month = 2, day = 28\<rparr>]\<rparr>)
   \<and> day \<lparr>year = 2015, month = 2, day = 28\<rparr> \<noteq> day \<lparr>year = 2015, month = 1, day = 31\<rparr>
   \<and> payment_date \<lparr>year = 2015, month = 1, day = 30\<rparr> 1 ''M'' Amortization
       = (Inl (ValueError ''day is out of range for month''),
          Amortization\<lparr>pmt_date :=
            Some [\<lparr>year = 2015, month = 1, day = 31\<rparr>, \<lparr>year = 2015, month = 2, day = 28\<rparr>]\<rparr>)"
  by (simp add: payment_date_def date_range_def bounded_range_def within_timestamp_max_def
        month_end_after_def Let_def days_in_month_def is_leap_year_def replace_day_def upt_rec)

end
